theory Spec2Isabelle
  imports Main "HOL-Library.Sublist"
begin

section \<open>The log exporter \<open>ml/export_logs.py\<close>\<close>

text \<open>
  The script is one linear procedure with effects on three parts of the outside world:
  the file system (the output directory, the exported files, the \<open>.env\<close> files), the
  process environment (filled by \<open>load_dotenv\<close>), and the database behind
  \<open>pd.read_sql\<close>. The model threads a \<open>world\<close> through every call. Each call returns
  \<open>Inl e\<close> where the Python raises \<open>e\<close>, and \<open>Inr v\<close> where it returns \<open>v\<close>. The world
  carries a trace of the effects in the order they happen, so that a statement such as
  "before any query is executed" is a statement about that list.

  The exceptions modelled are the one the script raises itself, those of the calls it
  makes that depend on the state of the file system (\<open>mkdir\<close>, opening a file for
  writing), of the clock arithmetic (\<open>OverflowError\<close>), of \<open>pd.read_sql\<close> and of the
  parquet engine. Failures of the operating system that the file system state does not
  decide (permissions, a full disk) are left out, and so is \<open>create_engine\<close> refusing
  the connection string.
\<close>

subsection \<open>Paths, files, rowsets\<close>

text \<open>
  A \<open>pathlib.Path\<close> is the list of its components below one fixed anchor (the current
  directory): \<open>Path("backend") / ".env"\<close> is \<open>[''backend'', ''.env'']\<close>, the anchor itself
  is \<open>[]\<close>, and \<open>p.parent\<close> drops the last component. Components are compared as
  written: \<open>..\<close> is not resolved.
\<close>

type_synonym path = "string list"

definition parent :: "path \<Rightarrow> path" where
  "parent p = butlast p"

text \<open>The rowset \<open>pd.read_sql\<close> returns: column names and rows of cells.\<close>

record dataframe =
  df_columns :: "string list"
  df_rows :: "string list list"

datatype content =
    Dotenv "(string \<times> string) list"
  | CsvData dataframe
  | ParquetData dataframe
  | Opaque string

datatype node = Dir | File content

datatype error =
    RuntimeError string
  | OverflowError
  | FileExistsError path
  | FileNotFoundError path
  | NotADirectoryError path
  | IsADirectoryError path
  | DatabaseError string
  | SerializationError string

text \<open>
  The four \<open>print\<close> calls of the script, by their format string:
  \<open>Exporting {base_name} ...\<close>,
  \<open>Warning: parquet export for {base_name} failed ({e}). Install pyarrow ...\<close>,
  \<open> -> exported {len(df)} rows to: {out_files}\<close> and
  \<open>Export completed. Files are under: {out_dir}\<close>.
\<close>

datatype message =
    Exporting string
  | ParquetWarning string error
  | Exported nat "path list"
  | Completed path

datatype event =
    MkdirEv path
  | LoadDotenv path
  | ReadSql string string
  | WriteFile path
  | Print message

record world =
  fs :: "path \<rightharpoonup> node"
  environ :: "string \<rightharpoonup> string"
  trace :: "event list"

text \<open>The anchor directory always exists.\<close>

definition lookup :: "world \<Rightarrow> path \<Rightarrow> node option" where
  "lookup w p = (if p = [] then Some Dir else fs w p)"

definition path_exists :: "world \<Rightarrow> path \<Rightarrow> bool" where
  "path_exists w p = (lookup w p \<noteq> None)"

definition is_dir :: "world \<Rightarrow> path \<Rightarrow> bool" where
  "is_dir w p = (lookup w p = Some Dir)"

subsection \<open>Calls that may raise\<close>

type_synonym 'a io = "world \<Rightarrow> (error + 'a) \<times> world"

definition ret :: "'a \<Rightarrow> 'a io" where
  "ret a = (\<lambda>w. (Inr a, w))"

definition raise :: "error \<Rightarrow> 'a io" where
  "raise e = (\<lambda>w. (Inl e, w))"

definition seq :: "'a io \<Rightarrow> ('a \<Rightarrow> 'b io) \<Rightarrow> 'b io" where
  "seq m f = (\<lambda>w. case m w of (Inl e, w') \<Rightarrow> (Inl e, w') | (Inr a, w') \<Rightarrow> f a w')"

text \<open>\<open>try: m except Exception as e: h e\<close>\<close>

definition catch :: "'a io \<Rightarrow> (error \<Rightarrow> 'a io) \<Rightarrow> 'a io" where
  "catch m h = (\<lambda>w. case m w of (Inl e, w') \<Rightarrow> h e w' | (Inr a, w') \<Rightarrow> (Inr a, w'))"

definition emit :: "event \<Rightarrow> unit io" where
  "emit ev = (\<lambda>w. (Inr (), w\<lparr>trace := trace w @ [ev]\<rparr>))"

subsection \<open>The file system calls the script makes\<close>

text \<open>
  \<open>os.mkdir\<close>: the parent is resolved first (missing: \<open>FileNotFoundError\<close>, a regular
  file: \<open>NotADirectoryError\<close>), then an existing target gives \<open>FileExistsError\<close>.
\<close>

definition os_mkdir :: "path \<Rightarrow> unit io" where
  "os_mkdir p = (\<lambda>w.
     if p = [] then (Inl (FileExistsError p), w)
     else case lookup w (parent p) of
            None \<Rightarrow> (Inl (FileNotFoundError p), w)
          | Some (File c) \<Rightarrow> (Inl (NotADirectoryError p), w)
          | Some Dir \<Rightarrow>
              (case fs w p of
                 Some n \<Rightarrow> (Inl (FileExistsError p), w)
               | None \<Rightarrow> (Inr (), w\<lparr>fs := (fs w)(p \<mapsto> Dir), trace := trace w @ [MkdirEv p]\<rparr>)))"

text \<open>
  \<open>Path.mkdir(parents, exist_ok)\<close> as pathlib writes it:
  \<^verbatim>\<open>
    try:
        os.mkdir(self, mode)
    except FileNotFoundError:
        if not parents or self.parent == self:
            raise
        self.parent.mkdir(parents=True, exist_ok=True)
        self.mkdir(mode, parents=False, exist_ok=exist_ok)
    except OSError:
        if not exist_ok or not self.is_dir():
            raise
  \<close>
  The second call of the first handler has \<open>parents=False\<close> and so never recurses; it is
  \<open>mkdir_flat\<close>.
\<close>

definition mkdir_flat :: "bool \<Rightarrow> path \<Rightarrow> unit io" where
  "mkdir_flat exist_ok p = (\<lambda>w.
     case os_mkdir p w of
       (Inr u, w') \<Rightarrow> (Inr u, w')
     | (Inl (FileNotFoundError q), w') \<Rightarrow> (Inl (FileNotFoundError q), w')
     | (Inl e, w') \<Rightarrow> if \<not> exist_ok \<or> \<not> is_dir w' p then (Inl e, w') else (Inr (), w'))"

function mkdir :: "bool \<Rightarrow> bool \<Rightarrow> path \<Rightarrow> unit io" where
  "mkdir parents exist_ok p w =
     (case os_mkdir p w of
        (Inr u, w') \<Rightarrow> (Inr u, w')
      | (Inl (FileNotFoundError q), w') \<Rightarrow>
          if \<not> parents \<or> parent p = p then (Inl (FileNotFoundError q), w')
          else (case mkdir True True (parent p) w' of
                  (Inl e, w'') \<Rightarrow> (Inl e, w'')
                | (Inr u, w'') \<Rightarrow> mkdir_flat exist_ok p w'')
      | (Inl e, w') \<Rightarrow> if \<not> exist_ok \<or> \<not> is_dir w' p then (Inl e, w') else (Inr (), w'))"
  by pat_completeness auto
termination
proof (relation "measure (\<lambda>(parents, exist_ok, p, w). length p)")
  show "wf (measure (\<lambda>(parents, exist_ok, p, w). length p))" by simp
next
  fix parents exist_ok :: bool and p :: path and w :: world
    and x :: "(error + unit) \<times> world" and x1 :: "error + unit" and x2 :: world
    and a :: error and x4 :: path
  assume "\<not> (\<not> parents \<or> parent p = p)"
  then have "p \<noteq> []" by (auto simp: parent_def)
  then show "((True, True, parent p, x2), (parents, exist_ok, p, w))
      \<in> measure (\<lambda>(parents, exist_ok, p, w). length p)"
    by (simp add: parent_def)
qed

text \<open>
  Opening \<open>p\<close> for writing, as \<open>to_csv\<close> and \<open>to_parquet\<close> do: the parent must be a
  directory and \<open>p\<close> must not be one; an existing regular file is replaced.
  \<open>write_error\<close> is the exception the \<open>open\<close> raises, if any.
\<close>

definition write_error :: "world \<Rightarrow> path \<Rightarrow> error option" where
  "write_error w p =
     (case lookup w (parent p) of
        None \<Rightarrow> Some (FileNotFoundError p)
      | Some (File c') \<Rightarrow> Some (NotADirectoryError p)
      | Some Dir \<Rightarrow>
          (case lookup w p of
             Some Dir \<Rightarrow> Some (IsADirectoryError p)
           | _ \<Rightarrow> None))"

definition write_file :: "path \<Rightarrow> content \<Rightarrow> unit io" where
  "write_file p c = (\<lambda>w.
     case write_error w p of
       Some e \<Rightarrow> (Inl e, w)
     | None \<Rightarrow> (Inr (), w\<lparr>fs := (fs w)(p \<mapsto> File c), trace := trace w @ [WriteFile p]\<rparr>))"

subsection \<open>The environment file\<close>

definition ENV_PATHS :: "path list" where
  "ENV_PATHS = [[''backend'', ''.env''], [''.env''], [''..'', ''backend'', ''.env'']]"

text \<open>
  \<open>load_dotenv(dotenv_path=p)\<close> with its default \<open>override=False\<close>: the bindings of the
  file (a later line wins over an earlier one) are added to the process environment
  where the variable is not set yet. A path that is not a regular file gives no binding
  and no error.
\<close>

definition dotenv_values :: "world \<Rightarrow> path \<Rightarrow> (string \<times> string) list" where
  "dotenv_values w p = (case lookup w p of Some (File (Dotenv kvs)) \<Rightarrow> kvs | _ \<Rightarrow> [])"

definition load_dotenv :: "path \<Rightarrow> unit io" where
  "load_dotenv p = (\<lambda>w.
     (Inr (), w\<lparr>environ := map_of (rev (dotenv_values w p)) ++ environ w,
                trace := trace w @ [LoadDotenv p]\<rparr>))"

fun find_and_load_env_from :: "path list \<Rightarrow> path option io" where
  "find_and_load_env_from [] = ret None"
| "find_and_load_env_from (p # ps) = (\<lambda>w.
     if path_exists w p then seq (load_dotenv p) (\<lambda>_. ret (Some p)) w
     else find_and_load_env_from ps w)"

definition find_and_load_env :: "path option io" where
  "find_and_load_env = find_and_load_env_from ENV_PATHS"

definition getenv :: "world \<Rightarrow> string \<Rightarrow> string \<Rightarrow> string" where
  "getenv w k d = (case environ w k of None \<Rightarrow> d | Some v \<Rightarrow> v)"

text \<open>
  \<open>create_engine\<close> opens no connection; the engine is the connection string, and the
  first connection is made by the first \<open>read_sql\<close>.
\<close>

definition make_engine_from_env :: "string io" where
  "make_engine_from_env =
     seq find_and_load_env (\<lambda>env.
       if env = None then
         raise (RuntimeError
           ''Could not find backend/.env. Place .env in backend/.env or project root.'')
       else (\<lambda>w.
         let DB_USER = getenv w ''DB_USER'' ''root'';
             DB_PASS = getenv w ''DB_PASS'' ''pass123'';
             DB_HOST = getenv w ''DB_HOST'' ''127.0.0.1'';
             DB_PORT = getenv w ''DB_PORT'' ''3306'';
             DB_NAME = getenv w ''DB_NAME'' ''learning'';
             uri = ''mysql+pymysql://'' @ DB_USER @ '':'' @ DB_PASS @ ''@'' @ DB_HOST
                   @ '':'' @ DB_PORT @ ''/'' @ DB_NAME
         in (Inr uri, w)))"

subsection \<open>Dates: \<open>datetime\<close>, \<open>timedelta(days=D)\<close> and \<open>strftime\<close>\<close>

text \<open>
  A \<open>datetime\<close> is kept as its proleptic Gregorian ordinal (the value of
  \<open>toordinal()\<close>: day 1 is 0001-01-01, \<open>MAXORDINAL\<close> is 9999-12-31) with its time of day.
  The calendar fields are computed from the ordinal as the standard library does
  (\<open>_ord2ymd\<close>), and a date is entered through \<open>_ymd2ord\<close>.
\<close>

record datetime =
  dt_ordinal :: nat
  dt_hour :: nat
  dt_minute :: nat
  dt_second :: nat
  dt_microsecond :: nat

definition MAXORDINAL :: nat where
  "MAXORDINAL = 3652059"

definition valid_datetime :: "datetime \<Rightarrow> bool" where
  "valid_datetime t \<longleftrightarrow>
     1 \<le> dt_ordinal t \<and> dt_ordinal t \<le> MAXORDINAL \<and> dt_hour t < 24 \<and> dt_minute t < 60
     \<and> dt_second t < 60 \<and> dt_microsecond t < 1000000"

definition is_leap :: "nat \<Rightarrow> bool" where
  "is_leap year \<longleftrightarrow> year mod 4 = 0 \<and> (year mod 100 \<noteq> 0 \<or> year mod 400 = 0)"

definition DAYS_IN_MONTH :: "nat list" where
  "DAYS_IN_MONTH = [0, 31, 28, 31, 30, 31, 30, 31, 31, 30, 31, 30, 31]"

definition DAYS_BEFORE_MONTH :: "nat list" where
  "DAYS_BEFORE_MONTH = [0, 0, 31, 59, 90, 120, 151, 181, 212, 243, 273, 304, 334]"

definition days_before_year :: "nat \<Rightarrow> nat" where
  "days_before_year year =
     (let y = year - 1 in y * 365 + y div 4 - y div 100 + y div 400)"

definition days_before_month :: "nat \<Rightarrow> nat \<Rightarrow> nat" where
  "days_before_month year month =
     DAYS_BEFORE_MONTH ! month + (if month > 2 \<and> is_leap year then 1 else 0)"

definition ymd2ord :: "nat \<Rightarrow> nat \<Rightarrow> nat \<Rightarrow> nat" where
  "ymd2ord year month day = days_before_year year + days_before_month year month + day"

text \<open>
  \<open>_ord2ymd\<close>, with \<open>_DI400Y = 146097\<close>, \<open>_DI100Y = 36524\<close>, \<open>_DI4Y = 1461\<close>. It is
  called on ordinals from 1 only.
\<close>

definition ord2ymd :: "nat \<Rightarrow> nat \<times> nat \<times> nat" where
  "ord2ymd ordinal =
     (let n = ordinal - 1;
          n400 = n div 146097; n = n mod 146097;
          n100 = n div 36524; n = n mod 36524;
          n4 = n div 1461; n = n mod 1461;
          n1 = n div 365; n = n mod 365;
          year = n400 * 400 + 1 + n100 * 100 + n4 * 4 + n1
      in if n1 = 4 \<or> n100 = 4 then (year - 1, 12, 31)
         else
           let leapyear = (n1 = 3 \<and> (n4 \<noteq> 24 \<or> n100 = 3));
               month = (n + 50) div 32;
               preceding = DAYS_BEFORE_MONTH ! month + (if month > 2 \<and> leapyear then 1 else 0)
           in if preceding > n then
                let month = month - 1;
                    preceding = preceding
                      - (DAYS_IN_MONTH ! month + (if month = 2 \<and> leapyear then 1 else 0))
                in (year, month, n - preceding + 1)
              else (year, month, n - preceding + 1))"

definition mk_datetime :: "nat \<Rightarrow> nat \<Rightarrow> nat \<Rightarrow> nat \<Rightarrow> nat \<Rightarrow> nat \<Rightarrow> nat \<Rightarrow> datetime" where
  "mk_datetime year month day hour minute second microsecond =
     \<lparr>dt_ordinal = ymd2ord year month day, dt_hour = hour, dt_minute = minute,
      dt_second = second, dt_microsecond = microsecond\<rparr>"

text \<open>The chronological order of two datetimes.\<close>

definition dt_key :: "datetime \<Rightarrow> nat" where
  "dt_key t =
     (((dt_ordinal t * 24 + dt_hour t) * 60 + dt_minute t) * 60 + dt_second t) * 1000000
     + dt_microsecond t"

definition dt_less :: "datetime \<Rightarrow> datetime \<Rightarrow> bool" where
  "dt_less a b \<longleftrightarrow> dt_key a < dt_key b"

text \<open>
  \<open>timedelta(days=D)\<close> raises \<open>OverflowError\<close> beyond 999999999 days, and
  \<open>datetime - timedelta\<close> raises it when the result leaves the years 1 to 9999. A
  difference of whole days leaves the time of day as it is.
\<close>

definition timedelta_days :: "int \<Rightarrow> error + int" where
  "timedelta_days D = (if \<bar>D\<bar> > 999999999 then Inl OverflowError else Inr D)"

definition datetime_sub :: "datetime \<Rightarrow> int \<Rightarrow> error + datetime" where
  "datetime_sub t days =
     (let n = int (dt_ordinal t) - days
      in if 0 < n \<and> n \<le> int MAXORDINAL then Inr (t\<lparr>dt_ordinal := nat n\<rparr>)
         else Inl OverflowError)"

definition digit :: "nat \<Rightarrow> char" where
  "digit d = ''0123456789'' ! d"

definition digits2 :: "nat \<Rightarrow> string" where
  "digits2 n = [digit (n div 10 mod 10), digit (n mod 10)]"

definition digits4 :: "nat \<Rightarrow> string" where
  "digits4 n = digits2 (n div 100) @ digits2 (n mod 100)"

text \<open>
  \<open>t.strftime("%Y-%m-%d %H:%M:%S")\<close>, with the year on four digits as the library
  documents \<open>%Y\<close> (before the year 1000 some C libraries leave the leading zeros out).
\<close>

definition strftime :: "datetime \<Rightarrow> string" where
  "strftime t =
     (case ord2ymd (dt_ordinal t) of
        (year, month, day) \<Rightarrow>
          digits4 year @ ''-'' @ digits2 month @ ''-'' @ digits2 day @ '' ''
          @ digits2 (dt_hour t) @ '':'' @ digits2 (dt_minute t) @ '':'' @ digits2 (dt_second t))"

subsection \<open>What the script does not control\<close>

text \<open>
  The clock read by \<open>datetime.utcnow()\<close>; the database as \<open>pd.read_sql\<close> shows it (the
  result of a statement on the connection string, or the exception of the connection or
  of the statement); and the parquet engine, which gives the text of the exception it
  raises for a rowset (a missing \<open>pyarrow\<close> raises for every rowset).
\<close>

record ext =
  utcnow :: datetime
  read_sql :: "string \<Rightarrow> string \<Rightarrow> error + dataframe"
  parquet_error :: "path \<Rightarrow> dataframe \<Rightarrow> string option"

definition pd_read_sql :: "ext \<Rightarrow> string \<Rightarrow> string \<Rightarrow> dataframe io" where
  "pd_read_sql x sql engine = (\<lambda>w.
     (read_sql x engine sql, w\<lparr>trace := trace w @ [ReadSql engine sql]\<rparr>))"

definition to_csv :: "dataframe \<Rightarrow> path \<Rightarrow> unit io" where
  "to_csv df p = write_file p (CsvData df)"

definition to_parquet :: "ext \<Rightarrow> dataframe \<Rightarrow> path \<Rightarrow> unit io" where
  "to_parquet x df p =
     (case parquet_error x p df of
        Some msg \<Rightarrow> raise (SerializationError msg)
      | None \<Rightarrow> write_file p (ParquetData df))"

subsection \<open>\<open>export_table\<close>\<close>

definition export_table ::
  "ext \<Rightarrow> string \<Rightarrow> string \<Rightarrow> path \<Rightarrow> string \<Rightarrow> string list \<Rightarrow> dataframe io" where
  "export_table x engine sql out_dir base_name formats =
     seq (emit (Print (Exporting base_name))) (\<lambda>_.
     seq (pd_read_sql x sql engine) (\<lambda>df.
     seq (if ''csv'' \<in> set formats then
            (let csv_path = out_dir @ [base_name @ ''.csv'']
             in seq (to_csv df csv_path) (\<lambda>_. ret [csv_path]))
          else ret []) (\<lambda>out_files.
     seq (if ''parquet'' \<in> set formats then
            catch
              (let pq_path = out_dir @ [base_name @ ''.parquet'']
               in seq (to_parquet x df pq_path) (\<lambda>_. ret (out_files @ [pq_path])))
              (\<lambda>e. seq (emit (Print (ParquetWarning base_name e))) (\<lambda>_. ret out_files))
          else ret out_files) (\<lambda>out_files.
     seq (emit (Print (Exported (length (df_rows df)) out_files))) (\<lambda>_.
     ret df)))))"

subsection \<open>\<open>main\<close>\<close>

text \<open>
  The arguments as \<open>argparse\<close> hands them over: \<open>--formats\<close> takes one or more of
  \<open>csv\<close> and \<open>parquet\<close> (anything else is refused before \<open>main\<close> goes on) and
  \<open>--since-days\<close> is an integer of any size, or \<open>None\<close> when the flag is left out.
\<close>

record args =
  out_dir :: path
  formats :: "string list"
  since_days :: "int option"

definition valid_args :: "args \<Rightarrow> bool" where
  "valid_args a \<longleftrightarrow> formats a \<noteq> [] \<and> set (formats a) \<subseteq> {''csv'', ''parquet''}"

definition lower_char :: "char \<Rightarrow> char" where
  "lower_char c =
     (let n = (of_char c :: nat) in if 65 \<le> n \<and> n \<le> 90 then char_of (n + 32) else c)"

definition lower :: "string \<Rightarrow> string" where
  "lower s = map lower_char s"

definition quote :: char where
  "quote = CHR 0x27"

text \<open>Line 91: \<open>cutoff = datetime.utcnow() - timedelta(days=args.since_days)\<close>.\<close>

definition cutoff_of :: "datetime \<Rightarrow> int \<Rightarrow> error + datetime" where
  "cutoff_of now D =
     (case timedelta_days D of
        Inl e \<Rightarrow> Inl e
      | Inr d \<Rightarrow> datetime_sub now d)"

text \<open>Lines 89 to 93: the time filter.\<close>

definition make_time_filter :: "ext \<Rightarrow> int option \<Rightarrow> error + string" where
  "make_time_filter x since =
     (case since of
        None \<Rightarrow> Inr []
      | Some D \<Rightarrow>
          (case cutoff_of (utcnow x) D of
             Inl e \<Rightarrow> Inl e
           | Inr cutoff \<Rightarrow>
               (let cutoff_str = strftime cutoff
                in Inr ('' WHERE created_at >= '' @ [quote] @ cutoff_str @ [quote] @ '' ''))))"

text \<open>Lines 99 to 102: \<open>base + (time_filter if args.since_days is not None else "")\<close>.\<close>

definition log_sql :: "string \<Rightarrow> int option \<Rightarrow> string \<Rightarrow> string" where
  "log_sql base since time_filter = base @ (if since \<noteq> None then time_filter else [])"

definition main :: "ext \<Rightarrow> args \<Rightarrow> unit io" where
  "main x a =
     seq (mkdir True True (out_dir a)) (\<lambda>_.
     let formats = map lower (formats a) in
     seq make_engine_from_env (\<lambda>engine.
     seq (\<lambda>w. (make_time_filter x (since_days a), w)) (\<lambda>time_filter.
     seq (export_table x engine ''SELECT id, email, role, created_at FROM users''
            (out_dir a) ''users'' formats) (\<lambda>_.
     seq (export_table x engine
            ''SELECT id, user_id, role, skill_level, career_path FROM user_profiles''
            (out_dir a) ''user_profiles'' formats) (\<lambda>_.
     let search_sql = log_sql ''SELECT id, user_id, query, created_at FROM search_logs''
                        (since_days a) time_filter;
         click_sql = log_sql ''SELECT id, user_id, course_id, event, created_at FROM click_logs''
                        (since_days a) time_filter;
         completed_sql = log_sql
                        ''SELECT id, user_id, course_id, completed_at FROM completed_courses''
                        (since_days a) time_filter;
         inprogress_sql = log_sql
                        ''SELECT id, user_id, course_id, started_at, last_seen_at FROM in_progress''
                        (since_days a) time_filter
     in
     seq (export_table x engine search_sql (out_dir a) ''search_logs'' formats) (\<lambda>_.
     seq (export_table x engine click_sql (out_dir a) ''click_logs'' formats) (\<lambda>_.
     seq (export_table x engine completed_sql (out_dir a) ''completed_courses'' formats) (\<lambda>_.
     seq (export_table x engine inprogress_sql (out_dir a) ''in_progress'' formats) (\<lambda>_.
     emit (Print (Completed (out_dir a))))))))))))"

subsection \<open>Reading a run\<close>

text \<open>
  A run starts from a file system and a process environment, with no effect yet; what it
  did is read off the trace of the world it ends in: the statements sent to the
  database, the files written, the lines printed.
\<close>

definition start :: "(path \<rightharpoonup> node) \<Rightarrow> (string \<rightharpoonup> string) \<Rightarrow> world" where
  "start f env = \<lparr>fs = f, environ = env, trace = []\<rparr>"

fun event_sql :: "event \<Rightarrow> string list" where
  "event_sql (ReadSql engine sql) = [sql]"
| "event_sql (MkdirEv p) = []"
| "event_sql (LoadDotenv p) = []"
| "event_sql (WriteFile p) = []"
| "event_sql (Print m) = []"

definition queries :: "world \<Rightarrow> string list" where
  "queries w = concat (map event_sql (trace w))"

fun event_write :: "event \<Rightarrow> path list" where
  "event_write (WriteFile p) = [p]"
| "event_write (MkdirEv p) = []"
| "event_write (LoadDotenv p) = []"
| "event_write (ReadSql engine sql) = []"
| "event_write (Print m) = []"

definition writes :: "world \<Rightarrow> path list" where
  "writes w = concat (map event_write (trace w))"

fun event_print :: "event \<Rightarrow> message list" where
  "event_print (Print m) = [m]"
| "event_print (MkdirEv p) = []"
| "event_print (LoadDotenv p) = []"
| "event_print (ReadSql engine sql) = []"
| "event_print (WriteFile p) = []"

definition prints :: "world \<Rightarrow> message list" where
  "prints w = concat (map event_print (trace w))"

text \<open>
  The six calls of \<open>export_table\<close> in \<open>main\<close>, as the list of their statements and base
  names in the order of the calls, and the calls run over such a list.
\<close>

definition exports :: "int option \<Rightarrow> string \<Rightarrow> (string \<times> string) list" where
  "exports since time_filter =
     [(''SELECT id, email, role, created_at FROM users'', ''users''),
      (''SELECT id, user_id, role, skill_level, career_path FROM user_profiles'',
       ''user_profiles''),
      (log_sql ''SELECT id, user_id, query, created_at FROM search_logs'' since time_filter,
       ''search_logs''),
      (log_sql ''SELECT id, user_id, course_id, event, created_at FROM click_logs'' since
         time_filter,
       ''click_logs''),
      (log_sql ''SELECT id, user_id, course_id, completed_at FROM completed_courses'' since
         time_filter,
       ''completed_courses''),
      (log_sql ''SELECT id, user_id, course_id, started_at, last_seen_at FROM in_progress'' since
         time_filter,
       ''in_progress'')]"

fun run_exports ::
  "ext \<Rightarrow> string \<Rightarrow> path \<Rightarrow> string list \<Rightarrow> (string \<times> string) list \<Rightarrow> unit io" where
  "run_exports x engine out fmts [] = ret ()"
| "run_exports x engine out fmts ((sql, base_name) # rest) =
     seq (export_table x engine sql out base_name fmts)
       (\<lambda>_. run_exports x engine out fmts rest)"

text \<open>
  The statements as the specification words them: the two identity tables with their
  plain \<open>SELECT\<close>, the four log tables with \<open> WHERE created_at >= '<cutoff>' \<close> appended
  when a cutoff string is given.
\<close>

definition spec_where :: "string option \<Rightarrow> string" where
  "spec_where cutoff =
     (case cutoff of
        None \<Rightarrow> []
      | Some c \<Rightarrow> '' WHERE created_at >= '' @ [quote] @ c @ [quote] @ '' '')"

definition spec_sql_texts :: "string option \<Rightarrow> string list" where
  "spec_sql_texts cutoff =
     [''SELECT id, email, role, created_at FROM users'',
      ''SELECT id, user_id, role, skill_level, career_path FROM user_profiles'',
      ''SELECT id, user_id, query, created_at FROM search_logs'' @ spec_where cutoff,
      ''SELECT id, user_id, course_id, event, created_at FROM click_logs'' @ spec_where cutoff,
      ''SELECT id, user_id, course_id, completed_at FROM completed_courses'' @ spec_where cutoff,
      ''SELECT id, user_id, course_id, started_at, last_seen_at FROM in_progress''
        @ spec_where cutoff]"

text \<open>
  What one call of \<open>export_table\<close> does once its query has returned \<open>df\<close> and its CSV
  file (if asked for) can be opened: the exception of the parquet step, which the
  \<open>except\<close> clause catches, the events in their order, and the files.
\<close>

definition parquet_failure :: "ext \<Rightarrow> world \<Rightarrow> dataframe \<Rightarrow> path \<Rightarrow> error option" where
  "parquet_failure x w df p =
     (case parquet_error x p df of
        Some msg \<Rightarrow> Some (SerializationError msg)
      | None \<Rightarrow> write_error w p)"

definition csv_files :: "path \<Rightarrow> string \<Rightarrow> string list \<Rightarrow> path list" where
  "csv_files out b fmts = (if ''csv'' \<in> set fmts then [out @ [b @ ''.csv'']] else [])"

definition parquet_files ::
  "ext \<Rightarrow> world \<Rightarrow> dataframe \<Rightarrow> path \<Rightarrow> string \<Rightarrow> string list \<Rightarrow> path list" where
  "parquet_files x w df out b fmts =
     (if ''parquet'' \<in> set fmts \<and> parquet_failure x w df (out @ [b @ ''.parquet'']) = None
      then [out @ [b @ ''.parquet'']] else [])"

definition parquet_warnings ::
  "ext \<Rightarrow> world \<Rightarrow> dataframe \<Rightarrow> path \<Rightarrow> string \<Rightarrow> string list \<Rightarrow> message list" where
  "parquet_warnings x w df out b fmts =
     (if ''parquet'' \<in> set fmts then
        (case parquet_failure x w df (out @ [b @ ''.parquet'']) of
           None \<Rightarrow> []
         | Some e \<Rightarrow> [ParquetWarning b e])
      else [])"

definition export_events ::
  "ext \<Rightarrow> string \<Rightarrow> string \<Rightarrow> path \<Rightarrow> string \<Rightarrow> string list \<Rightarrow> dataframe \<Rightarrow> world
   \<Rightarrow> event list" where
  "export_events x engine sql out b fmts df w =
     [Print (Exporting b), ReadSql engine sql]
     @ map WriteFile (csv_files out b fmts)
     @ map WriteFile (parquet_files x w df out b fmts)
     @ map Print (parquet_warnings x w df out b fmts)
     @ [Print (Exported (length (df_rows df))
          (csv_files out b fmts @ parquet_files x w df out b fmts))]"

definition export_fs ::
  "ext \<Rightarrow> path \<Rightarrow> string \<Rightarrow> string list \<Rightarrow> dataframe \<Rightarrow> world \<Rightarrow> (path \<rightharpoonup> node)" where
  "export_fs x out b fmts df w =
     (let f1 = (if ''csv'' \<in> set fmts then (fs w)(out @ [b @ ''.csv''] \<mapsto> File (CsvData df))
                else fs w)
      in if parquet_files x w df out b fmts = [] then f1
         else f1(out @ [b @ ''.parquet''] \<mapsto> File (ParquetData df)))"

text \<open>
  The calls over a list of statements, as a function of the world they start in: the
  exception that ends them (if any) and the events up to there. A failed statement and a
  CSV file that cannot be opened end the calls; the parquet step never does.
\<close>

fun exports_outcome ::
  "ext \<Rightarrow> string \<Rightarrow> path \<Rightarrow> string list \<Rightarrow> world \<Rightarrow> (string \<times> string) list
   \<Rightarrow> error option \<times> event list" where
  "exports_outcome x engine out fmts w [] = (None, [])"
| "exports_outcome x engine out fmts w ((sql, b) # rest) =
     (case read_sql x engine sql of
        Inl e \<Rightarrow> (Some e, [Print (Exporting b), ReadSql engine sql])
      | Inr df \<Rightarrow>
          (case (if ''csv'' \<in> set fmts then write_error w (out @ [b @ ''.csv'']) else None) of
             Some e \<Rightarrow> (Some e, [Print (Exporting b), ReadSql engine sql])
           | None \<Rightarrow>
               (case exports_outcome x engine out fmts w rest of
                  (r, evs) \<Rightarrow> (r, export_events x engine sql out b fmts df w @ evs))))"

text \<open>
  \<open>creatable w p\<close>: \<open>p\<close> and each of its ancestors is missing, or is a directory inside a
  directory. \<open>grown w w'\<close>: \<open>w'\<close> is \<open>w\<close> with some missing paths made directories and
  nothing else done.
\<close>

definition creatable :: "world \<Rightarrow> path \<Rightarrow> bool" where
  "creatable w p \<longleftrightarrow>
     (\<forall>q \<in> set (prefixes p).
        case lookup w q of
          None \<Rightarrow> True
        | Some Dir \<Rightarrow> is_dir w (parent q)
        | Some (File c) \<Rightarrow> False)"

definition grown :: "world \<Rightarrow> world \<Rightarrow> bool" where
  "grown w w' \<longleftrightarrow>
     environ w' = environ w
     \<and> (\<forall>q. fs w' q = fs w q \<or> (fs w q = None \<and> fs w' q = Some Dir))
     \<and> (\<exists>ps. trace w' = trace w @ map MkdirEv ps)"

text \<open>The connection string \<open>make_engine_from_env\<close> builds from the environment.\<close>

definition db_uri :: "world \<Rightarrow> string" where
  "db_uri w =
     ''mysql+pymysql://'' @ getenv w ''DB_USER'' ''root'' @ '':'' @ getenv w ''DB_PASS'' ''pass123''
     @ ''@'' @ getenv w ''DB_HOST'' ''127.0.0.1'' @ '':'' @ getenv w ''DB_PORT'' ''3306''
     @ ''/'' @ getenv w ''DB_NAME'' ''learning''"

text \<open>The stages before the exports send no statement, write no file and print nothing.\<close>

definition quiet :: "world \<Rightarrow> bool" where
  "quiet w \<longleftrightarrow> queries w = [] \<and> writes w = [] \<and> prints w = []"

text \<open>The rowset a statement returns, for the statements that return one.\<close>

definition rowset :: "ext \<Rightarrow> string \<Rightarrow> string \<Rightarrow> dataframe" where
  "rowset x engine sql =
     (case read_sql x engine sql of
        Inr df \<Rightarrow> df
      | Inl e \<Rightarrow> \<lparr>df_columns = [], df_rows = []\<rparr>)"

text \<open>The files the calls over a list of statements leave.\<close>

fun exports_fs ::
  "ext \<Rightarrow> string \<Rightarrow> path \<Rightarrow> string list \<Rightarrow> world \<Rightarrow> (string \<times> string) list
   \<Rightarrow> (path \<rightharpoonup> node)" where
  "exports_fs x engine out fmts w [] = fs w"
| "exports_fs x engine out fmts w ((sql, b) # rest) =
     (case read_sql x engine sql of
        Inl e \<Rightarrow> fs w
      | Inr df \<Rightarrow>
          (case (if ''csv'' \<in> set fmts then write_error w (out @ [b @ ''.csv'']) else None) of
             Some e \<Rightarrow> fs w
           | None \<Rightarrow>
               exports_fs x engine out fmts (w\<lparr>fs := export_fs x out b fmts df w\<rparr>) rest))"

subsection \<open>A database for the statements the script sends\<close>

text \<open>
  \<open>pd.read_sql\<close> hands the text of the statement to the MySQL server. For the two shapes
  of statement \<open>main\<close> builds, \<open>SELECT c1, c2, ... FROM t\<close> and the same followed by
  \<open> WHERE c >= 'literal' \<close>, the server is modelled on tables of text cells: it
  refuses a column the table does not have, keeps the rows whose cell in column \<open>c\<close> is
  not before the literal, and returns the selected columns. Timestamps are cells of the
  form \<open>YYYY-MM-DD HH:MM:SS\<close>, for which the order of the texts is the order of the
  times. Every row of a table has one cell for each column.
\<close>

record table =
  t_columns :: "string list"
  t_rows :: "string list list"

type_synonym database = "string \<rightharpoonup> table"

record query =
  q_columns :: "string list"
  q_table :: string
  q_where :: "(string \<times> string) option"

fun split_on :: "string \<Rightarrow> string \<Rightarrow> (string \<times> string) option" where
  "split_on sep [] = (if sep = [] then Some ([], []) else None)"
| "split_on sep (c # cs) =
     (if take (length sep) (c # cs) = sep then Some ([], drop (length sep) (c # cs))
      else (case split_on sep cs of
              None \<Rightarrow> None
            | Some (a, b) \<Rightarrow> Some (c # a, b)))"

fun split_char :: "char \<Rightarrow> string \<Rightarrow> string list" where
  "split_char d [] = [[]]"
| "split_char d (c # cs) =
     (if c = d then [] # split_char d cs
      else (case split_char d cs of
              [] \<Rightarrow> [[c]]
            | t # ts \<Rightarrow> (c # t) # ts))"

definition trim :: "string \<Rightarrow> string" where
  "trim s = rev (dropWhile (\<lambda>c. c = CHR '' '') (rev (dropWhile (\<lambda>c. c = CHR '' '') s)))"

definition parse_select :: "string \<Rightarrow> query option" where
  "parse_select sql =
     (case split_on '' FROM '' sql of
        None \<Rightarrow> None
      | Some (sel, rest) \<Rightarrow>
          if take 7 sel \<noteq> ''SELECT '' then None
          else
            let cols = map trim (split_char (CHR '','') (drop 7 sel))
            in (case split_on '' WHERE '' rest of
                  None \<Rightarrow> Some \<lparr>q_columns = cols, q_table = trim rest, q_where = None\<rparr>
                | Some (tbl, cond) \<Rightarrow>
                    (case split_on '' >= '' cond of
                       None \<Rightarrow> None
                     | Some (col, lit) \<Rightarrow>
                         (case trim lit of
                            [] \<Rightarrow> None
                          | [c] \<Rightarrow> None
                          | c # l \<Rightarrow>
                              if c = quote \<and> last l = quote
                              then Some \<lparr>q_columns = cols, q_table = trim tbl,
                                         q_where = Some (trim col, butlast l)\<rparr>
                              else None))))"

fun index_of :: "string \<Rightarrow> string list \<Rightarrow> nat option" where
  "index_of c [] = None"
| "index_of c (d # ds) =
     (if c = d then Some 0
      else (case index_of c ds of None \<Rightarrow> None | Some i \<Rightarrow> Some (Suc i)))"

fun indexes_of :: "string list \<Rightarrow> string list \<Rightarrow> nat list option" where
  "indexes_of [] ds = Some []"
| "indexes_of (c # cs) ds =
     (case index_of c ds of
        None \<Rightarrow> None
      | Some i \<Rightarrow> (case indexes_of cs ds of None \<Rightarrow> None | Some js \<Rightarrow> Some (i # js)))"

fun str_le :: "string \<Rightarrow> string \<Rightarrow> bool" where
  "str_le [] t = True"
| "str_le (c # s) [] = False"
| "str_le (c # s) (d # t) =
     ((of_char c :: nat) < of_char d \<or> (c = d \<and> str_le s t))"

definition run_select :: "database \<Rightarrow> query \<Rightarrow> error + dataframe" where
  "run_select db q =
     (case db (q_table q) of
        None \<Rightarrow> Inl (DatabaseError ''Table does not exist'')
      | Some t \<Rightarrow>
          (case indexes_of (q_columns q) (t_columns t) of
             None \<Rightarrow> Inl (DatabaseError ''Unknown column in field list'')
           | Some js \<Rightarrow>
               (case q_where q of
                  None \<Rightarrow>
                    Inr \<lparr>df_columns = q_columns q,
                         df_rows = map (\<lambda>r. map (\<lambda>j. r ! j) js) (t_rows t)\<rparr>
                | Some (col, lit) \<Rightarrow>
                    (case index_of col (t_columns t) of
                       None \<Rightarrow> Inl (DatabaseError ''Unknown column in where clause'')
                     | Some k \<Rightarrow>
                         Inr \<lparr>df_columns = q_columns q,
                              df_rows = map (\<lambda>r. map (\<lambda>j. r ! j) js)
                                          (filter (\<lambda>r. str_le lit (r ! k)) (t_rows t))\<rparr>))))"

definition mysql :: "database \<Rightarrow> string \<Rightarrow> string \<Rightarrow> error + dataframe" where
  "mysql db engine sql =
     (case parse_select sql of
        None \<Rightarrow> Inl (DatabaseError ''You have an error in your SQL syntax'')
      | Some q \<Rightarrow> run_select db q)"

subsection \<open>Examples: clocks, databases, directories, arguments\<close>

text \<open>
  The third of November 2026 at noon, a database that answers every statement with an
  empty rowset, a parquet engine that works, and a project directory that holds
  \<open>backend/.env\<close>.
\<close>

definition demo_empty :: dataframe where
  "demo_empty = \<lparr>df_columns = [], df_rows = []\<rparr>"

definition demo_ext :: ext where
  "demo_ext =
     \<lparr>utcnow = mk_datetime 2026 11 3 12 0 0 0,
      read_sql = (\<lambda>engine sql. Inr demo_empty),
      parquet_error = (\<lambda>p df. None)\<rparr>"

definition demo_args :: args where
  "demo_args = \<lparr>out_dir = [''ml'', ''data''], formats = [''csv'', ''parquet''], since_days = Some 30\<rparr>"

definition demo_fs :: "path \<rightharpoonup> node" where
  "demo_fs =
     [[''backend''] \<mapsto> Dir,
      [''backend'', ''.env''] \<mapsto> File (Dotenv [(''DB_USER'', ''exporter'')])]"

text \<open>
  The same project without any \<open>.env\<close>; a database whose connection fails at the first
  statement; since-days of minus one day and of minus 1000000000 days.
\<close>

definition bare_fs :: "path \<rightharpoonup> node" where
  "bare_fs = [[''ml''] \<mapsto> Dir]"

definition refusing_ext :: ext where
  "refusing_ext =
     \<lparr>utcnow = mk_datetime 2026 11 3 12 0 0 0,
      read_sql = (\<lambda>engine sql. Inl (DatabaseError ''connection refused'')),
      parquet_error = (\<lambda>p df. None)\<rparr>"

definition tomorrow_args :: args where
  "tomorrow_args = \<lparr>out_dir = [''ml'', ''data''], formats = [''csv''], since_days = Some (- 1)\<rparr>"

definition far_args :: args where
  "far_args =
     \<lparr>out_dir = [''ml'', ''data''], formats = [''csv''], since_days = Some (- 1000000000)\<rparr>"

text \<open>
  A machine without \<open>pyarrow\<close>: the parquet engine raises for every rowset. Arguments
  asking for parquet only and for both formats, without since-days.
\<close>

definition no_pyarrow_ext :: ext where
  "no_pyarrow_ext =
     \<lparr>utcnow = mk_datetime 2026 11 3 12 0 0 0,
      read_sql = (\<lambda>engine sql. Inr demo_empty),
      parquet_error = (\<lambda>p df. Some ''Unable to find a usable engine'')\<rparr>"

definition parquet_only_args :: args where
  "parquet_only_args = \<lparr>out_dir = [''ml'', ''data''], formats = [''parquet''], since_days = None\<rparr>"

definition both_args :: args where
  "both_args =
     \<lparr>out_dir = [''ml'', ''data''], formats = [''csv'', ''parquet''], since_days = None\<rparr>"








section \<open>Properties\<close>

subsection \<open>Sequencing\<close>

lemma seq_ret [simp]: "seq (ret a) f = f a"
  by (simp add: seq_def ret_def)

lemma seq_raise [simp]: "seq (raise e) f = raise e"
  by (simp add: seq_def raise_def)

lemma seq_assoc: "seq (seq m f) g = seq m (\<lambda>a. seq (f a) g)"
  by (auto simp: seq_def fun_eq_iff split: prod.splits sum.splits)

lemma seq_Inl: "m w = (Inl e, w') \<Longrightarrow> seq m f w = (Inl e, w')"
  by (simp add: seq_def)

lemma seq_Inr: "m w = (Inr a, w') \<Longrightarrow> seq m f w = f a w'"
  by (simp add: seq_def)

lemmas io_defs = seq_def catch_def emit_def ret_def raise_def

lemma main_unfold:
  "main x a =
     seq (mkdir True True (out_dir a)) (\<lambda>_.
     seq make_engine_from_env (\<lambda>engine.
     seq (\<lambda>w. (make_time_filter x (since_days a), w)) (\<lambda>time_filter.
     seq (run_exports x engine (out_dir a) (map lower (formats a))
            (exports (since_days a) time_filter))
       (\<lambda>_. emit (Print (Completed (out_dir a)))))))"
  by (simp add: main_def exports_def seq_assoc Let_def)

subsection \<open>One call of \<open>export_table\<close>\<close>

lemma write_file_ok:
  "write_error w p = None \<Longrightarrow>
   write_file p c w = (Inr (), w\<lparr>fs := (fs w)(p \<mapsto> File c), trace := trace w @ [WriteFile p]\<rparr>)"
  by (simp add: write_file_def)

lemma write_file_fails:
  "write_error w p = Some e \<Longrightarrow> write_file p c w = (Inl e, w)"
  by (simp add: write_file_def)

lemma lookup_trace [simp]: "lookup (w\<lparr>trace := t\<rparr>) p = lookup w p"
  by (simp add: lookup_def)

lemma lookup_fs_other: "q \<noteq> p \<Longrightarrow> lookup (w\<lparr>fs := (fs w)(q \<mapsto> n)\<rparr>) p = lookup w p"
  by (simp add: lookup_def)

lemma write_error_trace [simp]: "write_error (w\<lparr>trace := t\<rparr>) p = write_error w p"
  by (simp add: write_error_def split: option.split node.split)

lemma write_error_other:
  "q \<noteq> p \<Longrightarrow> q \<noteq> parent p \<Longrightarrow> write_error (w\<lparr>fs := (fs w)(q \<mapsto> n)\<rparr>) p = write_error w p"
  by (simp add: write_error_def lookup_fs_other split: option.split node.split)

lemma to_parquet_cases:
  "to_parquet x df p w =
     (case parquet_failure x w df p of
        Some e \<Rightarrow> (Inl e, w)
      | None \<Rightarrow> (Inr (), w\<lparr>fs := (fs w)(p \<mapsto> File (ParquetData df)),
                          trace := trace w @ [WriteFile p]\<rparr>))"
  by (simp add: to_parquet_def parquet_failure_def write_file_def raise_def split: option.split)

lemma parquet_failure_trace [simp]:
  "parquet_failure x (w\<lparr>trace := t\<rparr>) df p = parquet_failure x w df p"
  by (simp add: parquet_failure_def split: option.split)

lemma parquet_failure_other:
  "q \<noteq> p \<Longrightarrow> q \<noteq> parent p \<Longrightarrow>
   parquet_failure x (w\<lparr>fs := (fs w)(q \<mapsto> n)\<rparr>) df p = parquet_failure x w df p"
  by (simp add: parquet_failure_def write_error_other split: option.split)

lemma csv_neq_parquet: "out @ [b @ ''.csv''] \<noteq> out @ [b @ ''.parquet'']"
  by simp

lemma child_neq_parent: "out @ [c] \<noteq> parent (out @ [d])"
  by (simp add: parent_def)

lemma export_table_raises:
  "read_sql x engine sql = Inl e \<Longrightarrow>
   export_table x engine sql out b fmts w =
     (Inl e, w\<lparr>trace := trace w @ [Print (Exporting b), ReadSql engine sql]\<rparr>)"
  by (simp add: export_table_def pd_read_sql_def io_defs)

lemma export_table_csv_fails:
  assumes "read_sql x engine sql = Inr df" and "''csv'' \<in> set fmts"
    and "write_error w (out @ [b @ ''.csv'']) = Some e"
  shows "export_table x engine sql out b fmts w =
     (Inl e, w\<lparr>trace := trace w @ [Print (Exporting b), ReadSql engine sql]\<rparr>)"
  using assms
  by (simp add: export_table_def pd_read_sql_def io_defs to_csv_def write_file_def Let_def)

lemma export_table_returns:
  assumes "read_sql x engine sql = Inr df"
    and "''csv'' \<in> set fmts \<Longrightarrow> write_error w (out @ [b @ ''.csv'']) = None"
  shows "export_table x engine sql out b fmts w =
     (Inr df, w\<lparr>fs := export_fs x out b fmts df w,
                 trace := trace w @ export_events x engine sql out b fmts df w\<rparr>)"
proof (cases "''csv'' \<in> set fmts")
  case True
  with assms have ok: "write_error w (out @ [b @ ''.csv'']) = None" by simp
  show ?thesis
  proof (cases "''parquet'' \<in> set fmts")
    case pq: True
    show ?thesis
    proof (cases "parquet_failure x w df (out @ [b @ ''.parquet''])")
      case None
      with True pq ok assms(1) show ?thesis
        by (simp add: export_table_def pd_read_sql_def io_defs to_csv_def write_file_def Let_def
            to_parquet_cases parquet_failure_other child_neq_parent
            export_fs_def export_events_def csv_files_def parquet_files_def parquet_warnings_def)
    next
      case (Some e)
      with True pq ok assms(1) show ?thesis
        by (simp add: export_table_def pd_read_sql_def io_defs to_csv_def write_file_def Let_def
            to_parquet_cases parquet_failure_other child_neq_parent
            export_fs_def export_events_def csv_files_def parquet_files_def parquet_warnings_def)
    qed
  next
    case False
    with True ok assms(1) show ?thesis
      by (simp add: export_table_def pd_read_sql_def io_defs to_csv_def write_file_def Let_def
          export_fs_def export_events_def csv_files_def parquet_files_def parquet_warnings_def)
  qed
next
  case False
  show ?thesis
  proof (cases "''parquet'' \<in> set fmts")
    case pq: True
    show ?thesis
    proof (cases "parquet_failure x w df (out @ [b @ ''.parquet''])")
      case None
      with False pq assms(1) show ?thesis
        by (simp add: export_table_def pd_read_sql_def io_defs Let_def
            to_parquet_cases
            export_fs_def export_events_def csv_files_def parquet_files_def parquet_warnings_def)
    next
      case (Some e)
      with False pq assms(1) show ?thesis
        by (simp add: export_table_def pd_read_sql_def io_defs Let_def
            to_parquet_cases
            export_fs_def export_events_def csv_files_def parquet_files_def parquet_warnings_def)
    qed
  next
    case pq: False
    with False assms(1) show ?thesis
      by (simp add: export_table_def pd_read_sql_def io_defs Let_def
          export_fs_def export_events_def csv_files_def parquet_files_def parquet_warnings_def)
  qed
qed

subsection \<open>\<open>mkdir(parents=True, exist_ok=True)\<close>\<close>

declare mkdir.simps [simp del]

lemma grown_refl [simp]: "grown w w"
  by (auto simp: grown_def intro: exI [of _ "[]"])

lemma grown_trans:
  assumes a: "grown w w1" and b: "grown w1 w2"
  shows "grown w w2"
proof -
  have e: "environ w2 = environ w" using a b by (simp add: grown_def)
  have f: "fs w2 q = fs w q \<or> (fs w q = None \<and> fs w2 q = Some Dir)" for q
  proof -
    have 1: "fs w1 q = fs w q \<or> (fs w q = None \<and> fs w1 q = Some Dir)"
      using a by (simp add: grown_def)
    have 2: "fs w2 q = fs w1 q \<or> (fs w1 q = None \<and> fs w2 q = Some Dir)"
      using b by (simp add: grown_def)
    from 1 2 show ?thesis by auto
  qed
  from a obtain ps where ps: "trace w1 = trace w @ map MkdirEv ps"
    by (auto simp: grown_def)
  from b obtain qs where qs: "trace w2 = trace w1 @ map MkdirEv qs"
    by (auto simp: grown_def)
  have "trace w2 = trace w @ map MkdirEv (ps @ qs)" using ps qs by simp
  then have t: "\<exists>ps. trace w2 = trace w @ map MkdirEv ps" by blast
  from e f t show ?thesis by (simp add: grown_def)
qed

lemma os_mkdir_cases:
  assumes "os_mkdir p w = (r, w')"
  shows "(r = Inr () \<and> p \<noteq> [] \<and> is_dir w (parent p) \<and> fs w p = None
          \<and> w' = w\<lparr>fs := (fs w)(p \<mapsto> Dir), trace := trace w @ [MkdirEv p]\<rparr>)
       \<or> ((\<exists>e. r = Inl e) \<and> w' = w)"
  using assms
  by (auto simp: os_mkdir_def is_dir_def split: if_splits option.splits node.splits)

lemma os_mkdir_grown:
  assumes "os_mkdir p w = (r, w')"
  shows "grown w w'"
  using os_mkdir_cases [OF assms]
proof (elim disjE conjE)
  assume n: "fs w p = None"
    and w': "w' = w\<lparr>fs := (fs w)(p \<mapsto> Dir), trace := trace w @ [MkdirEv p]\<rparr>"
  have "trace w' = trace w @ map MkdirEv [p]" by (simp add: w')
  then have "\<exists>ps. trace w' = trace w @ map MkdirEv ps" ..
  moreover have "\<forall>q. fs w' q = fs w q \<or> (fs w q = None \<and> fs w' q = Some Dir)"
    by (simp add: w' n)
  moreover have "environ w' = environ w" by (simp add: w')
  ultimately show ?thesis by (simp add: grown_def)
next
  assume "w' = w"
  then show ?thesis by simp
qed

lemma mkdir_flat_world: "snd (mkdir_flat ok p w) = snd (os_mkdir p w)"
proof (cases "os_mkdir p w")
  case (Pair r0 w0)
  show ?thesis
  proof (cases r0)
    case (Inr u)
    with Pair show ?thesis by (simp add: mkdir_flat_def)
  next
    case (Inl e)
    with Pair show ?thesis by (cases e) (simp_all add: mkdir_flat_def)
  qed
qed

lemma mkdir_flat_grown: "mkdir_flat ok p w = (r, w') \<Longrightarrow> grown w w'"
proof -
  assume a: "mkdir_flat ok p w = (r, w')"
  have "os_mkdir p w = (fst (os_mkdir p w), w')"
    using mkdir_flat_world [of ok p w] a by (simp add: prod_eq_iff)
  then show ?thesis by (rule os_mkdir_grown)
qed

lemma mkdir_grown: "mkdir parents ok p w = (r, w') \<Longrightarrow> grown w w'"
proof (induction parents ok p w arbitrary: r w' rule: mkdir.induct)
  case (1 parents exist_ok p w)
  obtain r0 w0 where o: "os_mkdir p w = (r0, w0)" by (cases "os_mkdir p w")
  then have g0: "grown w w0" by (rule os_mkdir_grown)
  note unf = mkdir.simps [of parents exist_ok p w, unfolded o "1.prems"]
  show ?case
  proof (cases r0)
    case (Inr u)
    with unf g0 show ?thesis by simp
  next
    case (Inl e)
    show ?thesis
    proof (cases "\<exists>q. e = FileNotFoundError q")
      case False
      then have "(r, w') = (if \<not> exist_ok \<or> \<not> is_dir w0 p then (Inl e, w0) else (Inr (), w0))"
        using unf Inl by (cases e) simp_all
      then have "w' = w0" by (simp split: if_splits)
      with g0 show ?thesis by simp
    next
      case True
      then obtain q where e: "e = FileNotFoundError q" by blast
      show ?thesis
      proof (cases "\<not> parents \<or> parent p = p")
        case True
        then have "w' = w0" using unf Inl e by auto
        with g0 show ?thesis by simp
      next
        case False
        obtain r1 w1 where m: "mkdir True True (parent p) w0 = (r1, w1)"
          by (cases "mkdir True True (parent p) w0")
        have g1: "grown w0 w1"
          using "1.IH" [OF o [symmetric] Inl e False m] .
        from unf Inl e False m have
          "(r, w') = (case r1 of Inl e' \<Rightarrow> (Inl e', w1) | Inr u \<Rightarrow> mkdir_flat exist_ok p w1)"
          by simp
        then have "grown w1 w'"
          by (cases r1) (auto intro: mkdir_flat_grown [OF sym])
        with g0 g1 show ?thesis by (blast intro: grown_trans)
      qed
    qed
  qed
qed


lemma parent_snoc [simp]: "parent (q @ [c]) = q"
  by (simp add: parent_def)

lemma os_mkdir_made:
  "p \<noteq> [] \<Longrightarrow> is_dir w (parent p) \<Longrightarrow> fs w p = None \<Longrightarrow>
   os_mkdir p w = (Inr (), w\<lparr>fs := (fs w)(p \<mapsto> Dir), trace := trace w @ [MkdirEv p]\<rparr>)"
  by (simp add: os_mkdir_def is_dir_def)

lemma os_mkdir_exists:
  "p \<noteq> [] \<Longrightarrow> is_dir w (parent p) \<Longrightarrow> fs w p = Some n \<Longrightarrow>
   os_mkdir p w = (Inl (FileExistsError p), w)"
  by (simp add: os_mkdir_def is_dir_def)

lemma os_mkdir_noparent:
  "p \<noteq> [] \<Longrightarrow> lookup w (parent p) = None \<Longrightarrow>
   os_mkdir p w = (Inl (FileNotFoundError p), w)"
  by (simp add: os_mkdir_def)

lemma mkdir_made: "os_mkdir p w = (Inr (), w') \<Longrightarrow> mkdir a b p w = (Inr (), w')"
  by (simp add: mkdir.simps [of a b p w])

lemma mkdir_exists:
  "os_mkdir p w = (Inl (FileExistsError p), w) \<Longrightarrow> is_dir w p \<Longrightarrow>
   mkdir a True p w = (Inr (), w)"
  by (simp add: mkdir.simps [of a True p w])

lemma mkdir_parents:
  "os_mkdir p w = (Inl (FileNotFoundError q), w0) \<Longrightarrow> parent p \<noteq> p \<Longrightarrow>
   mkdir True True (parent p) w0 = (Inr (), w1) \<Longrightarrow>
   mkdir True b p w = mkdir_flat b p w1"
  by (simp add: mkdir.simps [of True b p w])

lemma mkdir_flat_made: "os_mkdir p w = (Inr (), w') \<Longrightarrow> mkdir_flat b p w = (Inr (), w')"
  by (simp add: mkdir_flat_def)

lemma creatable_snoc: "creatable w (q @ [c]) \<Longrightarrow> creatable w q"
  by (simp add: creatable_def)

lemma creatable_at: "creatable w p \<Longrightarrow> lookup w p = Some n \<Longrightarrow> n = Dir \<and> is_dir w (parent p)"
  by (cases n) (auto simp: creatable_def dest!: bspec [of _ _ p])

lemma creatable_dirs:
  "creatable w p \<Longrightarrow> is_dir w p \<Longrightarrow> q \<in> set (prefixes p) \<Longrightarrow> is_dir w q"
proof (induction p rule: rev_induct)
  case Nil
  then show ?case by simp
next
  case (snoc c p)
  from snoc.prems(1,2) have "is_dir w p"
    using creatable_at [of w "p @ [c]" Dir] by (simp add: is_dir_def)
  with snoc show ?case by (auto dest: creatable_snoc)
qed

lemma mkdir_creatable:
  "creatable w p \<Longrightarrow>
   \<exists>w'. mkdir True True p w = (Inr (), w') \<and> (\<forall>q \<in> set (prefixes p). is_dir w' q)
      \<and> (\<forall>q. q \<notin> set (prefixes p) \<or> q = [] \<longrightarrow> fs w' q = fs w q)"
proof (induction p arbitrary: w rule: rev_induct)
  case Nil
  have "os_mkdir [] w = (Inl (FileExistsError []), w)" by (simp add: os_mkdir_def)
  then have "mkdir True True [] w = (Inr (), w)"
    by (rule mkdir_exists) (simp add: is_dir_def lookup_def)
  then show ?case by (simp add: is_dir_def lookup_def)
next
  case (snoc c q)
  let ?p = "q @ [c]"
  have cq: "creatable w q" using snoc.prems by (rule creatable_snoc)
  show ?case
  proof (cases "lookup w q")
    case None
    then have q: "q \<noteq> []" by (auto simp: lookup_def)
    have o: "os_mkdir ?p w = (Inl (FileNotFoundError ?p), w)"
      using None by (simp add: os_mkdir_noparent)
    from snoc.IH [OF cq] obtain w1 where
      m: "mkdir True True q w = (Inr (), w1)" and
      d: "\<forall>r \<in> set (prefixes q). is_dir w1 r" and
      f: "\<forall>r. r \<notin> set (prefixes q) \<or> r = [] \<longrightarrow> fs w1 r = fs w r" by blast
    have "lookup w ?p = None"
    proof (cases "lookup w ?p")
      case (Some n)
      from creatable_at [OF snoc.prems Some] None show ?thesis by (simp add: is_dir_def)
    qed simp
    then have "fs w ?p = None" by (simp add: lookup_def)
    moreover have "?p \<notin> set (prefixes q)" by (auto simp: in_set_prefixes prefix_def)
    ultimately have n: "fs w1 ?p = None" using f by simp
    have dq: "is_dir w1 q" using d by simp
    let ?w2 = "w1\<lparr>fs := (fs w1)(?p \<mapsto> Dir), trace := trace w1 @ [MkdirEv ?p]\<rparr>"
    have "os_mkdir ?p w1 = (Inr (), ?w2)" using dq n by (simp add: os_mkdir_made)
    then have "mkdir_flat True ?p w1 = (Inr (), ?w2)" by (rule mkdir_flat_made)
    moreover have "mkdir True True ?p w = mkdir_flat True ?p w1"
      using o m by (intro mkdir_parents [where q = ?p and ?w0.0 = w]) simp_all
    ultimately have r: "mkdir True True ?p w = (Inr (), ?w2)" by simp
    have "\<forall>r \<in> set (prefixes ?p). is_dir ?w2 r"
      using d by (auto simp: is_dir_def lookup_def)
    moreover have "\<forall>r. r \<notin> set (prefixes ?p) \<or> r = [] \<longrightarrow> fs ?w2 r = fs w r"
      using f by auto
    ultimately show ?thesis using r by blast
  next
    case (Some n)
    from creatable_at [OF cq Some] have dq: "is_dir w q" using Some by (simp add: is_dir_def)
    have dirs: "\<forall>r \<in> set (prefixes q). is_dir w r"
      using creatable_dirs [OF cq dq] by blast
    show ?thesis
    proof (cases "fs w ?p")
      case None
      let ?w2 = "w\<lparr>fs := (fs w)(?p \<mapsto> Dir), trace := trace w @ [MkdirEv ?p]\<rparr>"
      have "os_mkdir ?p w = (Inr (), ?w2)" using dq None by (simp add: os_mkdir_made)
      then have r: "mkdir True True ?p w = (Inr (), ?w2)" by (rule mkdir_made)
      have "\<forall>r \<in> set (prefixes ?p). is_dir ?w2 r"
        using dirs by (auto simp: is_dir_def lookup_def)
      moreover have "\<forall>r. r \<notin> set (prefixes ?p) \<or> r = [] \<longrightarrow> fs ?w2 r = fs w r" by auto
      ultimately show ?thesis using r by blast
    next
      case (Some m)
      then have l: "lookup w ?p = Some m" by (simp add: lookup_def)
      from creatable_at [OF snoc.prems l] have dp: "is_dir w ?p" using l by (simp add: is_dir_def)
      have "os_mkdir ?p w = (Inl (FileExistsError ?p), w)"
        using dq Some by (simp add: os_mkdir_exists)
      then have r: "mkdir True True ?p w = (Inr (), w)" using dp by (rule mkdir_exists)
      have "\<forall>r \<in> set (prefixes ?p). is_dir w r" using dirs dp by auto
      then show ?thesis using r by blast
    qed
  qed
qed


subsection \<open>\<open>make_engine_from_env\<close>\<close>

lemma find_and_load_env_none:
  "\<forall>p \<in> set ENV_PATHS. \<not> path_exists w p \<Longrightarrow> find_and_load_env w = (Inr None, w)"
  by (simp add: find_and_load_env_def ENV_PATHS_def ret_def)

lemma find_and_load_env_from_cases:
  "find_and_load_env_from ps w = (r, w') \<Longrightarrow>
     (r = Inr None \<and> w' = w \<and> (\<forall>p \<in> set ps. \<not> path_exists w p))
   \<or> (\<exists>p \<in> set ps. r = Inr (Some p) \<and> path_exists w p
        \<and> w' = w\<lparr>environ := map_of (rev (dotenv_values w p)) ++ environ w,
                  trace := trace w @ [LoadDotenv p]\<rparr>)"
  by (induction ps) (auto simp: ret_def seq_def load_dotenv_def split: if_splits)

lemma make_engine_from_env_none:
  "\<forall>p \<in> set ENV_PATHS. \<not> path_exists w p \<Longrightarrow>
   make_engine_from_env w =
     (Inl (RuntimeError
        ''Could not find backend/.env. Place .env in backend/.env or project root.''), w)"
  by (simp add: make_engine_from_env_def seq_def find_and_load_env_none raise_def)

lemma make_engine_from_env_cases:
  assumes "make_engine_from_env w = (r, w')"
  shows "(r = Inl (RuntimeError
            ''Could not find backend/.env. Place .env in backend/.env or project root.'')
          \<and> w' = w \<and> (\<forall>p \<in> set ENV_PATHS. \<not> path_exists w p))
       \<or> (\<exists>p \<in> set ENV_PATHS. r = Inr (db_uri w') \<and> path_exists w p
            \<and> w' = w\<lparr>environ := map_of (rev (dotenv_values w p)) ++ environ w,
                      trace := trace w @ [LoadDotenv p]\<rparr>)"
proof -
  obtain r0 w0 where f: "find_and_load_env w = (r0, w0)" by (cases "find_and_load_env w")
  from find_and_load_env_from_cases [OF f [unfolded find_and_load_env_def]]
  show ?thesis
  proof (elim disjE conjE bexE)
    assume "r0 = Inr None" "w0 = w" "\<forall>p\<in>set ENV_PATHS. \<not> path_exists w p"
    with assms make_engine_from_env_none [of w] show ?thesis by simp
  next
    fix p assume p: "p \<in> set ENV_PATHS" "r0 = Inr (Some p)" "path_exists w p"
      and w0: "w0 = w\<lparr>environ := map_of (rev (dotenv_values w p)) ++ environ w,
                  trace := trace w @ [LoadDotenv p]\<rparr>"
    from f p(2) have "make_engine_from_env w = (Inr (db_uri w0), w0)"
      by (simp add: make_engine_from_env_def seq_def db_uri_def Let_def)
    with assms p w0 show ?thesis by auto
  qed
qed

subsection \<open>The six calls in a row\<close>

lemma write_error_child:
  "is_dir w out \<Longrightarrow>
   write_error w (out @ [c]) =
     (if is_dir w (out @ [c]) then Some (IsADirectoryError (out @ [c])) else None)"
  by (simp add: write_error_def is_dir_def split: option.split node.split)

lemma is_dir_trace [simp]: "is_dir (w\<lparr>trace := t\<rparr>) q = is_dir w q"
  by (simp add: is_dir_def)

lemma write_error_same_dirs:
  assumes "\<forall>q. is_dir w1 q = is_dir w q" and "is_dir w out"
  shows "write_error w1 (out @ [c]) = write_error w (out @ [c])"
proof -
  have "is_dir w1 out" using assms by simp
  then show ?thesis using assms by (simp add: write_error_child)
qed

lemma parquet_failure_same_dirs:
  assumes "\<forall>q. is_dir w1 q = is_dir w q" and "is_dir w out"
  shows "parquet_failure x w1 df (out @ [c]) = parquet_failure x w df (out @ [c])"
  using write_error_same_dirs [OF assms, of c]
  by (simp add: parquet_failure_def split: option.split)

lemma export_events_same_dirs:
  assumes "\<forall>q. is_dir w1 q = is_dir w q" and "is_dir w out"
  shows "export_events x engine sql out b fmts df w1 = export_events x engine sql out b fmts df w"
  using parquet_failure_same_dirs [OF assms, of x df "b @ ''.parquet''"]
  by (simp add: export_events_def parquet_files_def parquet_warnings_def)

lemma exports_outcome_same_dirs:
  assumes "\<forall>q. is_dir w1 q = is_dir w q" and "is_dir w out"
  shows "exports_outcome x engine out fmts w1 xs = exports_outcome x engine out fmts w xs"
proof (induction xs)
  case Nil
  show ?case by simp
next
  case (Cons a xs)
  obtain sql b where a: "a = (sql, b)" by (cases a)
  have 1: "write_error w1 (out @ [b @ ''.csv'']) = write_error w (out @ [b @ ''.csv''])"
    using assms by (rule write_error_same_dirs)
  have 2: "export_events x engine sql out b fmts df w1 = export_events x engine sql out b fmts df w"
    for df using assms by (rule export_events_same_dirs)
  show ?case by (simp add: a 1 2 Cons.IH split: sum.split option.split)
qed

lemma export_fs_dirs:
  assumes "''csv'' \<in> set fmts \<Longrightarrow> write_error w (out @ [b @ ''.csv'']) = None"
    and "is_dir w out"
  shows "is_dir (w\<lparr>fs := export_fs x out b fmts df w, trace := t\<rparr>) q = is_dir w q"
proof -
  have c: "''csv'' \<in> set fmts \<Longrightarrow> \<not> is_dir w (out @ [b @ ''.csv''])"
    using assms by (simp add: write_error_child split: if_splits)
  have p: "parquet_files x w df out b fmts \<noteq> [] \<Longrightarrow> \<not> is_dir w (out @ [b @ ''.parquet''])"
    using assms(2)
    by (auto simp: parquet_files_def parquet_failure_def write_error_child
        split: if_splits option.splits)
  show ?thesis
    using c p by (auto simp: export_fs_def is_dir_def lookup_def Let_def)
qed

lemma run_exports_outcome:
  assumes "is_dir w out" and "run_exports x engine out fmts xs w = (r, w')"
  shows "r = (case fst (exports_outcome x engine out fmts w xs) of
                None \<Rightarrow> Inr () | Some e \<Rightarrow> Inl e)
       \<and> trace w' = trace w @ snd (exports_outcome x engine out fmts w xs)
       \<and> environ w' = environ w
       \<and> (\<forall>q. is_dir w' q = is_dir w q)"
  using assms
proof (induction xs arbitrary: w r w')
  case Nil
  then show ?case by (simp add: ret_def)
next
  case (Cons a xs)
  obtain sql b where a: "a = (sql, b)" by (cases a)
  show ?case
  proof (cases "read_sql x engine sql")
    case (Inl e)
    from export_table_raises [OF Inl, of out b fmts w] Cons.prems(2) Inl
    show ?thesis by (auto simp: a seq_def)
  next
    case (Inr df)
    show ?thesis
    proof (cases "if ''csv'' \<in> set fmts then write_error w (out @ [b @ ''.csv'']) else None")
      case (Some e)
      then have c: "''csv'' \<in> set fmts" "write_error w (out @ [b @ ''.csv'']) = Some e"
        by (auto split: if_splits)
      from export_table_csv_fails [OF Inr c] Cons.prems(2) Inr Some
      show ?thesis by (auto simp: a seq_def)
    next
      case None
      then have c: "''csv'' \<in> set fmts \<Longrightarrow> write_error w (out @ [b @ ''.csv'']) = None"
        by (auto split: if_splits)
      let ?w1 = "w\<lparr>fs := export_fs x out b fmts df w,
                   trace := trace w @ export_events x engine sql out b fmts df w\<rparr>"
      have e: "export_table x engine sql out b fmts w = (Inr df, ?w1)"
        using Inr c by (rule export_table_returns)
      have d: "\<forall>q. is_dir ?w1 q = is_dir w q"
        using export_fs_dirs [OF c Cons.prems(1)] by simp
      then have d1: "is_dir ?w1 out" using Cons.prems(1) by simp
      have r: "run_exports x engine out fmts xs ?w1 = (r, w')"
        using Cons.prems(2) e by (simp add: a seq_def)
      note ih = Cons.IH [OF d1 r]
      have o: "exports_outcome x engine out fmts ?w1 xs = exports_outcome x engine out fmts w xs"
        using d Cons.prems(1) by (rule exports_outcome_same_dirs)
      show ?thesis
        using ih d Inr None by (simp add: a o split: prod.split)
    qed
  qed
qed

subsection \<open>\<open>main\<close> as its four stages\<close>

lemma mkdir_flat_is_dir: "mkdir_flat b p w = (Inr (), w') \<Longrightarrow> is_dir w' p"
proof -
  assume a: "mkdir_flat b p w = (Inr (), w')"
  obtain r0 w0 where o: "os_mkdir p w = (r0, w0)" by (cases "os_mkdir p w")
  show ?thesis
  proof (cases r0)
    case (Inr u)
    with a o have "os_mkdir p w = (Inr (), w')" by (simp add: mkdir_flat_def)
    from os_mkdir_cases [OF this] show ?thesis by (auto simp: is_dir_def lookup_def)
  next
    case (Inl e)
    with a o show ?thesis by (cases e) (auto simp: mkdir_flat_def split: if_splits)
  qed
qed

lemma mkdir_is_dir: "mkdir c b p w = (Inr (), w') \<Longrightarrow> is_dir w' p"
proof -
  assume a: "mkdir c b p w = (Inr (), w')"
  obtain r0 w0 where o: "os_mkdir p w = (r0, w0)" by (cases "os_mkdir p w")
  note unf = mkdir.simps [of c b p w, unfolded o a]
  show ?thesis
  proof (cases r0)
    case (Inr u)
    with unf o have "os_mkdir p w = (Inr (), w')" by simp
    from os_mkdir_cases [OF this] show ?thesis by (auto simp: is_dir_def lookup_def)
  next
    case (Inl e)
    show ?thesis
    proof (cases "\<exists>q. e = FileNotFoundError q")
      case False
      then have "(Inr (), w') = (if \<not> b \<or> \<not> is_dir w0 p then (Inl e, w0) else (Inr (), w0))"
        using unf Inl by (cases e) simp_all
      then show ?thesis by (simp split: if_splits)
    next
      case True
      then obtain q where e: "e = FileNotFoundError q" by blast
      obtain r1 w1 where m: "mkdir True True (parent p) w0 = (r1, w1)"
        by (cases "mkdir True True (parent p) w0")
      from unf Inl e m have "mkdir_flat b p w1 = (Inr (), w')"
        by (cases r1) (auto split: if_splits)
      then show ?thesis by (rule mkdir_flat_is_dir)
    qed
  qed
qed

lemma main_mkdir_fails:
  "mkdir True True (out_dir a) w = (Inl e, w1) \<Longrightarrow> main x a w = (Inl e, w1)"
  by (simp add: main_unfold seq_def)

lemma main_no_engine:
  "mkdir True True (out_dir a) w = (Inr (), w1) \<Longrightarrow> make_engine_from_env w1 = (Inl e, w2) \<Longrightarrow>
   main x a w = (Inl e, w2)"
  by (simp add: main_unfold seq_def)

lemma main_no_filter:
  "mkdir True True (out_dir a) w = (Inr (), w1) \<Longrightarrow> make_engine_from_env w1 = (Inr engine, w2) \<Longrightarrow>
   make_time_filter x (since_days a) = Inl e \<Longrightarrow> main x a w = (Inl e, w2)"
  by (simp add: main_unfold seq_def)

lemma main_exports:
  assumes "mkdir True True (out_dir a) w = (Inr (), w1)"
    and "make_engine_from_env w1 = (Inr engine, w2)"
    and "make_time_filter x (since_days a) = Inr tf"
  shows "fst (main x a w) =
           (case fst (exports_outcome x engine (out_dir a) (map lower (formats a)) w2
                        (exports (since_days a) tf)) of
              None \<Rightarrow> Inr () | Some e \<Rightarrow> Inl e)
       \<and> trace (snd (main x a w)) =
           trace w2 @ snd (exports_outcome x engine (out_dir a) (map lower (formats a)) w2
                        (exports (since_days a) tf))
           @ (case fst (exports_outcome x engine (out_dir a) (map lower (formats a)) w2
                        (exports (since_days a) tf)) of
              None \<Rightarrow> [Print (Completed (out_dir a))] | Some e \<Rightarrow> [])
       \<and> (\<forall>q. is_dir (snd (main x a w)) q = is_dir w2 q)"
proof -
  let ?xs = "exports (since_days a) tf"
  let ?fm = "map lower (formats a)"
  obtain r w3 where r: "run_exports x engine (out_dir a) ?fm ?xs w2 = (r, w3)"
    by (cases "run_exports x engine (out_dir a) ?fm ?xs w2")
  have "is_dir w1 (out_dir a)" using assms(1) by (rule mkdir_is_dir)
  moreover from make_engine_from_env_cases [OF assms(2)] have "fs w2 = fs w1" by auto
  ultimately have d: "is_dir w2 (out_dir a)" by (auto simp: is_dir_def lookup_def split: if_splits)
  note o = run_exports_outcome [OF d r]
  have m: "main x a w = (case r of Inl e \<Rightarrow> (Inl e, w3)
             | Inr u \<Rightarrow> (Inr (), w3\<lparr>trace := trace w3 @ [Print (Completed (out_dir a))]\<rparr>))"
    using assms r by (simp add: main_unfold seq_def emit_def split: sum.split)
  show ?thesis
  proof (cases "fst (exports_outcome x engine (out_dir a) ?fm w2 ?xs)")
    case None
    with o m show ?thesis by simp
  next
    case (Some e)
    with o m show ?thesis by simp
  qed
qed

subsection \<open>What the stages leave in the trace\<close>

lemma event_sql_WriteFile [simp]: "concat (map event_sql (map WriteFile ps)) = []"
  by (induction ps) simp_all

lemma event_sql_Print [simp]: "concat (map event_sql (map Print ms)) = []"
  by (induction ms) simp_all

lemma event_sql_MkdirEv [simp]: "concat (map event_sql (map MkdirEv ps)) = []"
  by (induction ps) simp_all

lemma export_events_sql [simp]:
  "concat (map event_sql (export_events x engine sql out b fmts df w)) = [sql]"
  by (simp add: export_events_def)


lemma quiet_start [simp]: "quiet (start f env)"
  by (simp add: quiet_def start_def queries_def writes_def prints_def)

lemma grown_quiet: "grown w w' \<Longrightarrow> quiet w \<Longrightarrow> quiet w'"
proof -
  assume g: "grown w w'" and q: "quiet w"
  from g obtain ps where "trace w' = trace w @ map MkdirEv ps" by (auto simp: grown_def)
  moreover have "concat (map event_sql (map MkdirEv ps)) = []"
    "concat (map event_write (map MkdirEv ps)) = []"
    "concat (map event_print (map MkdirEv ps)) = []"
    by (induction ps) simp_all
  ultimately show ?thesis using q by (simp add: quiet_def queries_def writes_def prints_def)
qed

lemma engine_quiet: "make_engine_from_env w = (r, w') \<Longrightarrow> quiet w \<Longrightarrow> quiet w'"
  by (drule make_engine_from_env_cases)
    (auto simp: quiet_def queries_def writes_def prints_def)

lemma main_cases:
  obtains (stopped) e w' where "main x a (start f env) = (Inl e, w')" and "quiet w'"
  | (exporting) w1 engine w2 tf where
      "mkdir True True (out_dir a) (start f env) = (Inr (), w1)"
      "make_engine_from_env w1 = (Inr engine, w2)"
      "make_time_filter x (since_days a) = Inr tf"
      "quiet w2"
proof -
  obtain r1 w1 where m: "mkdir True True (out_dir a) (start f env) = (r1, w1)"
    by (cases "mkdir True True (out_dir a) (start f env)")
  have q1: "quiet w1" using mkdir_grown [OF m] by (rule grown_quiet) simp
  show thesis
  proof (cases r1)
    case (Inl e)
    with m have "main x a (start f env) = (Inl e, w1)" by (simp add: main_mkdir_fails)
    then show ?thesis using q1 by (rule stopped)
  next
    case (Inr u)
    then have m': "mkdir True True (out_dir a) (start f env) = (Inr (), w1)" using m by simp
    obtain r2 w2 where g: "make_engine_from_env w1 = (r2, w2)"
      by (cases "make_engine_from_env w1")
    have q2: "quiet w2" using g q1 by (rule engine_quiet)
    show ?thesis
    proof (cases r2)
      case (Inl e)
      with m' g have "main x a (start f env) = (Inl e, w2)" by (simp add: main_no_engine)
      then show ?thesis using q2 by (rule stopped)
    next
      case (Inr engine)
      then have g': "make_engine_from_env w1 = (Inr engine, w2)" using g by simp
      show ?thesis
      proof (cases "make_time_filter x (since_days a)")
        case (Inl e)
        with m' g' have "main x a (start f env) = (Inl e, w2)" by (simp add: main_no_filter)
        then show ?thesis using q2 by (rule stopped)
      next
        case (Inr tf)
        from m' g' Inr q2 show ?thesis by (rule exporting)
      qed
    qed
  qed
qed

lemma exports_sql_None: "map fst (exports None tf) = spec_sql_texts None"
  by (simp add: exports_def spec_sql_texts_def log_sql_def spec_where_def)

lemma exports_sql_Some: "map fst (exports (Some D) (spec_where (Some s))) = spec_sql_texts (Some s)"
  by (simp add: exports_def spec_sql_texts_def log_sql_def)

lemma make_time_filter_Some:
  "make_time_filter x (Some D) =
     (case cutoff_of (utcnow x) D of
        Inl e \<Rightarrow> Inl e
      | Inr c \<Rightarrow> Inr (spec_where (Some (strftime c))))"
  by (simp add: make_time_filter_def spec_where_def split: sum.split)



lemma ReadSql_in_export_events:
  "ReadSql e' s' \<in> set (export_events x engine sql out b fmts df w) \<longleftrightarrow> e' = engine \<and> s' = sql"
  by (auto simp: export_events_def)

lemma outcome_failed_query:
  assumes "ReadSql engine' sql' \<in> set (snd (exports_outcome x engine out fmts w xs))"
    and "read_sql x engine' sql' = Inl e"
  shows "fst (exports_outcome x engine out fmts w xs) = Some e
       \<and> last (snd (exports_outcome x engine out fmts w xs)) = ReadSql engine' sql'
       \<and> count_list (snd (exports_outcome x engine out fmts w xs)) (ReadSql engine' sql') = 1"
  using assms(1)
proof (induction xs)
  case Nil
  then show ?case by simp
next
  case (Cons a xs)
  obtain sql b where a: "a = (sql, b)" by (cases a)
  show ?case
  proof (cases "read_sql x engine sql")
    case (Inl e0)
    with Cons.prems have "engine' = engine \<and> sql' = sql" by (simp add: a)
    with Inl assms(2) show ?thesis by (simp add: a)
  next
    case (Inr df)
    show ?thesis
    proof (cases "if ''csv'' \<in> set fmts then write_error w (out @ [b @ ''.csv'']) else None")
      case (Some e1)
      with Cons.prems Inr have "engine' = engine \<and> sql' = sql" by (simp add: a)
      with Inr assms(2) show ?thesis by simp
    next
      case None
      let ?rest = "exports_outcome x engine out fmts w xs"
      let ?ev = "export_events x engine sql out b fmts df w"
      have o: "exports_outcome x engine out fmts w (a # xs) = (fst ?rest, ?ev @ snd ?rest)"
        using Inr None by (simp add: a split: prod.split)
      have n: "ReadSql engine' sql' \<notin> set ?ev"
        using Inr assms(2) by (auto simp: ReadSql_in_export_events)
      with Cons.prems o have m: "ReadSql engine' sql' \<in> set (snd ?rest)" by simp
      note ih = Cons.IH [OF m]
      from m have ne: "snd ?rest \<noteq> []" by auto
      have c: "count_list ?ev (ReadSql engine' sql') = 0" using n by (simp add: count_list_0_iff)
      show ?thesis using ih ne c by (simp add: o)
    qed
  qed
qed

lemma quiet_no_query: "quiet w \<Longrightarrow> ReadSql e s \<notin> set (trace w)"
proof
  assume q: "quiet w" and m: "ReadSql e s \<in> set (trace w)"
  from m have "s \<in> set (concat (map event_sql (trace w)))" by force
  with q show False by (simp add: quiet_def queries_def)
qed

lemma stage_quiet:
  assumes "mkdir True True p (start f env) = (r, w1)" and "make_engine_from_env w1 = (r', w2)"
  shows "quiet w2"
proof -
  have "quiet w1" using mkdir_grown [OF assms(1)] by (rule grown_quiet) simp
  with assms(2) show ?thesis by (rule engine_quiet)
qed

subsection \<open>Runs that return\<close>

lemma outcome_None:
  assumes "\<forall>(sql, b) \<in> set xs. (\<exists>df. read_sql x engine sql = Inr df)
             \<and> (''csv'' \<in> set fmts \<longrightarrow> write_error w (out @ [b @ ''.csv'']) = None)"
  shows "fst (exports_outcome x engine out fmts w xs) = None"
  using assms
proof (induction xs)
  case Nil
  show ?case by simp
next
  case (Cons a xs)
  obtain sql b where a: "a = (sql, b)" by (cases a)
  from Cons.prems obtain df where df: "read_sql x engine sql = Inr df" by (auto simp: a)
  from Cons.prems have c: "''csv'' \<in> set fmts \<longrightarrow> write_error w (out @ [b @ ''.csv'']) = None"
    by (auto simp: a)
  from Cons.prems have "fst (exports_outcome x engine out fmts w xs) = None"
    by (intro Cons.IH) simp
  then show ?case using df c by (auto simp: a split: prod.split)
qed

lemma main_stages:
  assumes "creatable (start f env) (out_dir a)"
    and "p \<in> set ENV_PATHS" and "path_exists (start f env) p"
  obtains w1 w2 where
    "mkdir True True (out_dir a) (start f env) = (Inr (), w1)"
    "make_engine_from_env w1 = (Inr (db_uri w2), w2)"
    "fs w2 = (\<lambda>q. if q \<in> set (prefixes (out_dir a)) \<and> q \<noteq> [] then Some Dir else f q)"
    "quiet w2"
proof -
  from mkdir_creatable [OF assms(1)] obtain w1 where
    m: "mkdir True True (out_dir a) (start f env) = (Inr (), w1)" and
    d: "\<forall>q \<in> set (prefixes (out_dir a)). is_dir w1 q" and
    fr: "\<forall>q. q \<notin> set (prefixes (out_dir a)) \<or> q = [] \<longrightarrow> fs w1 q = fs (start f env) q"
    by blast
  have f1: "fs w1 = (\<lambda>q. if q \<in> set (prefixes (out_dir a)) \<and> q \<noteq> [] then Some Dir else f q)"
  proof
    fix q
    show "fs w1 q = (if q \<in> set (prefixes (out_dir a)) \<and> q \<noteq> [] then Some Dir else f q)"
      using d fr by (auto simp: is_dir_def lookup_def start_def split: if_splits)
  qed
  have q1: "quiet w1" using mkdir_grown [OF m] by (rule grown_quiet) simp
  have ex: "path_exists w1 p"
    using assms(3) by (auto simp: path_exists_def lookup_def f1 start_def)
  obtain r2 w2 where g: "make_engine_from_env w1 = (r2, w2)"
    by (cases "make_engine_from_env w1")
  have q2: "quiet w2" using g q1 by (rule engine_quiet)
  from make_engine_from_env_cases [OF g] ex assms(2)
  have "r2 = Inr (db_uri w2)" and "fs w2 = fs w1" by auto
  with m g f1 q2 show thesis by (intro that [of w1 w2]) simp_all
qed

lemma lower_csv: "lower ''csv'' = ''csv''"
  by (simp add: lower_def lower_char_def)

lemma lower_parquet: "lower ''parquet'' = ''parquet''"
  by (simp add: lower_def lower_char_def)

lemma lower_valid: "valid_args a \<Longrightarrow> map lower (formats a) = formats a"
proof -
  assume "valid_args a"
  then have "\<forall>s \<in> set (formats a). lower s = s"
    by (auto simp: valid_args_def lower_csv lower_parquet)
  then show ?thesis by (simp add: map_idI)
qed

lemma outcome_success_events:
  "fst (exports_outcome x engine out fmts w xs) = None \<Longrightarrow>
   snd (exports_outcome x engine out fmts w xs) =
     concat (map (\<lambda>(sql, b). export_events x engine sql out b fmts (rowset x engine sql) w) xs)"
proof (induction xs)
  case Nil
  show ?case by simp
next
  case (Cons a xs)
  obtain sql b where a: "a = (sql, b)" by (cases a)
  obtain r evs where o: "exports_outcome x engine out fmts w xs = (r, evs)"
    by (cases "exports_outcome x engine out fmts w xs")
  from Cons.prems obtain df where df: "read_sql x engine sql = Inr df"
    by (cases "read_sql x engine sql") (simp_all add: a)
  from Cons.prems df have
    c: "(if ''csv'' \<in> set fmts then write_error w (out @ [b @ ''.csv'']) else None) = None"
    by (cases "if ''csv'' \<in> set fmts then write_error w (out @ [b @ ''.csv'']) else None")
      (simp_all add: a)
  from Cons.prems df c o have "r = None" by (simp add: a)
  with Cons.IH o have "evs = concat (map (\<lambda>(sql, b).
      export_events x engine sql out b fmts (rowset x engine sql) w) xs)" by simp
  with df c o show ?case by (simp add: a rowset_def)
qed

lemma concat_map_concat:
  "concat (map f (concat xss)) = concat (map (\<lambda>xs. concat (map f xs)) xss)"
  by (induction xss) simp_all

lemma event_write_WriteFile [simp]: "concat (map (event_write \<circ> WriteFile) ps) = ps"
  by (induction ps) simp_all

lemma event_write_Print [simp]: "concat (map (event_write \<circ> Print) ms) = []"
  by (induction ms) simp_all

lemma event_print_WriteFile [simp]: "concat (map (event_print \<circ> WriteFile) ps) = []"
  by (induction ps) simp_all

lemma event_print_Print [simp]: "concat (map (event_print \<circ> Print) ms) = ms"
  by (induction ms) simp_all

lemma export_events_writes:
  "concat (map event_write (export_events x engine sql out b fmts df w))
     = csv_files out b fmts @ parquet_files x w df out b fmts"
  by (simp add: export_events_def)

lemma export_events_prints:
  "concat (map event_print (export_events x engine sql out b fmts df w))
     = [Exporting b] @ parquet_warnings x w df out b fmts
       @ [Exported (length (df_rows df)) (csv_files out b fmts @ parquet_files x w df out b fmts)]"
  by (simp add: export_events_def)

lemma outcome_success_writes:
  assumes "fst (exports_outcome x engine out fmts w xs) = None"
  shows "concat (map event_write (snd (exports_outcome x engine out fmts w xs))) =
     concat (map (\<lambda>(sql, b). csv_files out b fmts
                   @ parquet_files x w (rowset x engine sql) out b fmts) xs)"
  unfolding outcome_success_events [OF assms] concat_map_concat
  by (simp add: o_def split_def export_events_writes)

lemma outcome_success_prints:
  assumes "fst (exports_outcome x engine out fmts w xs) = None"
  shows "concat (map event_print (snd (exports_outcome x engine out fmts w xs))) =
     concat (map (\<lambda>(sql, b). [Exporting b]
                   @ parquet_warnings x w (rowset x engine sql) out b fmts
                   @ [Exported (length (df_rows (rowset x engine sql)))
                        (csv_files out b fmts
                         @ parquet_files x w (rowset x engine sql) out b fmts)]) xs)"
  unfolding outcome_success_events [OF assms] concat_map_concat
  by (simp add: o_def split_def export_events_prints)

lemma main_success:
  assumes "mkdir True True (out_dir a) (start f env) = (Inr (), w1)"
    and "make_engine_from_env w1 = (Inr engine, w2)"
    and "make_time_filter x (since_days a) = Inr tf"
    and "valid_args a"
    and "fst (main x a (start f env)) = Inr ()"
  shows "writes (snd (main x a (start f env))) =
           concat (map (\<lambda>(sql, b). csv_files (out_dir a) b (formats a)
                          @ parquet_files x w2 (rowset x engine sql) (out_dir a) b (formats a))
                     (exports (since_days a) tf))"
    and "prints (snd (main x a (start f env))) =
           concat (map (\<lambda>(sql, b). [Exporting b]
                   @ parquet_warnings x w2 (rowset x engine sql) (out_dir a) b (formats a)
                   @ [Exported (length (df_rows (rowset x engine sql)))
                        (csv_files (out_dir a) b (formats a)
                         @ parquet_files x w2 (rowset x engine sql) (out_dir a) b (formats a))])
                     (exports (since_days a) tf))
           @ [Completed (out_dir a)]"
proof -
  let ?o = "exports_outcome x engine (out_dir a) (formats a) w2 (exports (since_days a) tf)"
  note m = main_exports [OF assms(1-3), unfolded lower_valid [OF assms(4)]]
  have n: "fst ?o = None" using m assms(5) by (cases "fst ?o") simp_all
  have q: "quiet w2" using assms(1,2) by (rule stage_quiet)
  have t: "trace (snd (main x a (start f env))) = trace w2 @ snd ?o @ [Print (Completed (out_dir a))]"
    using m n by simp
  show "writes (snd (main x a (start f env))) =
           concat (map (\<lambda>(sql, b). csv_files (out_dir a) b (formats a)
                          @ parquet_files x w2 (rowset x engine sql) (out_dir a) b (formats a))
                     (exports (since_days a) tf))"
    using q outcome_success_writes [OF n] by (simp add: writes_def t quiet_def)
  show "prints (snd (main x a (start f env))) =
           concat (map (\<lambda>(sql, b). [Exporting b]
                   @ parquet_warnings x w2 (rowset x engine sql) (out_dir a) b (formats a)
                   @ [Exported (length (df_rows (rowset x engine sql)))
                        (csv_files (out_dir a) b (formats a)
                         @ parquet_files x w2 (rowset x engine sql) (out_dir a) b (formats a))])
                     (exports (since_days a) tf))
           @ [Completed (out_dir a)]"
    using q outcome_success_prints [OF n] by (simp add: prints_def t quiet_def)
qed

lemma main_returns:
  assumes "mkdir True True (out_dir a) (start f env) = (Inr (), w1)"
    and "make_engine_from_env w1 = (Inr engine, w2)"
    and "make_time_filter x (since_days a) = Inr tf"
    and "valid_args a"
    and "\<forall>(sql, b) \<in> set (exports (since_days a) tf).
           (\<exists>df. read_sql x engine sql = Inr df)
           \<and> (''csv'' \<in> set (formats a) \<longrightarrow> \<not> is_dir w2 (out_dir a @ [b @ ''.csv'']))"
  shows "fst (main x a (start f env)) = Inr ()"
proof -
  have "is_dir w1 (out_dir a)" using assms(1) by (rule mkdir_is_dir)
  moreover from make_engine_from_env_cases [OF assms(2)] have "fs w2 = fs w1" by auto
  ultimately have d: "is_dir w2 (out_dir a)" by (auto simp: is_dir_def lookup_def split: if_splits)
  have "fst (exports_outcome x engine (out_dir a) (formats a) w2 (exports (since_days a) tf)) = None"
  proof (rule outcome_None, rule ballI)
    fix y assume y: "y \<in> set (exports (since_days a) tf)"
    obtain sql b where yb: "y = (sql, b)" by (cases y)
    from assms(5) y yb have 1: "\<exists>df. read_sql x engine sql = Inr df"
      and 2: "''csv'' \<in> set (formats a) \<longrightarrow> \<not> is_dir w2 (out_dir a @ [b @ ''.csv''])"
      by auto
    from 2 have "''csv'' \<in> set (formats a) \<longrightarrow> write_error w2 (out_dir a @ [b @ ''.csv'']) = None"
      by (simp add: write_error_child [OF d])
    with 1 show "case y of (sql, b) \<Rightarrow> (\<exists>df. read_sql x engine sql = Inr df)
        \<and> (''csv'' \<in> set (formats a) \<longrightarrow> write_error w2 (out_dir a @ [b @ ''.csv'']) = None)"
      by (simp add: yb)
  qed
  with main_exports [OF assms(1-3), unfolded lower_valid [OF assms(4)]] show ?thesis by simp
qed

lemma distinct_snd:
  "distinct (map snd xs) \<Longrightarrow> (s, b) \<in> set xs \<Longrightarrow> (s', b) \<in> set xs \<Longrightarrow> s' = s"
  by (induction xs) (auto simp: image_iff)

lemma exports_bases:
  "map snd (exports since tf) =
     [''users'', ''user_profiles'', ''search_logs'', ''click_logs'', ''completed_courses'',
      ''in_progress'']"
  by (simp add: exports_def)

lemma exports_distinct: "distinct (map snd (exports since tf))"
  by (simp add: exports_bases)

lemma in_csv_files: "p \<in> set (csv_files out b fmts) \<longleftrightarrow> ''csv'' \<in> set fmts \<and> p = out @ [b @ ''.csv'']"
  by (auto simp: csv_files_def)

lemma in_parquet_files:
  "p \<in> set (parquet_files x w df out b fmts) \<longleftrightarrow>
     ''parquet'' \<in> set fmts \<and> parquet_failure x w df (out @ [b @ ''.parquet'']) = None
     \<and> p = out @ [b @ ''.parquet'']"
  by (auto simp: parquet_files_def)

subsection \<open>The files a run leaves\<close>

lemma parquet_files_trace [simp]:
  "parquet_files x (w\<lparr>trace := t\<rparr>) df out b fmts = parquet_files x w df out b fmts"
  by (simp add: parquet_files_def)

lemma export_fs_trace [simp]:
  "export_fs x out b fmts df (w\<lparr>trace := t\<rparr>) = export_fs x out b fmts df w"
  by (simp add: export_fs_def)

lemma exports_fs_trace [simp]:
  "exports_fs x engine out fmts (w\<lparr>trace := t\<rparr>) xs = exports_fs x engine out fmts w xs"
proof (induction xs arbitrary: w)
  case Nil
  show ?case by simp
next
  case (Cons a xs)
  obtain sql b where a: "a = (sql, b)" by (cases a)
  have sw: "(w\<lparr>trace := t\<rparr>)\<lparr>fs := F\<rparr> = (w\<lparr>fs := F\<rparr>)\<lparr>trace := t\<rparr>" for F
    by simp
  have "exports_fs x engine out fmts ((w\<lparr>trace := t\<rparr>)\<lparr>fs := F\<rparr>) xs
        = exports_fs x engine out fmts (w\<lparr>fs := F\<rparr>) xs" for F
    unfolding sw by (rule Cons.IH)
  then show ?case by (simp add: a split: sum.split option.split)
qed









subsection \<open>The runs of the examples\<close>

lemma demo_creatable: "creatable (start demo_fs Map.empty) (out_dir demo_args)"
  by (simp add: creatable_def demo_args_def demo_fs_def start_def lookup_def is_dir_def parent_def)

lemma demo_env: "path_exists (start demo_fs Map.empty) [''backend'', ''.env'']"
  by (simp add: path_exists_def lookup_def start_def demo_fs_def)

lemma demo_cutoff:
  "cutoff_of (utcnow demo_ext) 30 = Inr (mk_datetime 2026 10 4 12 0 0 0)"
  by (simp add: cutoff_of_def timedelta_days_def datetime_sub_def demo_ext_def mk_datetime_def
      ymd2ord_def days_before_year_def days_before_month_def DAYS_BEFORE_MONTH_def is_leap_def
      MAXORDINAL_def Let_def)

lemmas calendar_defs = mk_datetime_def ymd2ord_def days_before_year_def days_before_month_def
  DAYS_BEFORE_MONTH_def DAYS_IN_MONTH_def is_leap_def ord2ymd_def MAXORDINAL_def

lemma demo_strftime: "strftime (mk_datetime 2026 10 4 12 0 0 0) = ''2026-10-04 12:00:00''"
  by (simp add: strftime_def calendar_defs Let_def digits4_def digits2_def digit_def)


lemma bare_creatable: "creatable (start bare_fs Map.empty) [''ml'', ''data'']"
  by (simp add: creatable_def bare_fs_def start_def lookup_def is_dir_def parent_def)

lemma bare_stage:
  obtains w1 where
    "mkdir True True [''ml'', ''data''] (start bare_fs Map.empty) = (Inr (), w1)"
    "\<forall>p \<in> set ENV_PATHS. \<not> path_exists w1 p"
    "is_dir w1 [''ml'', ''data'']"
proof -
  from mkdir_creatable [OF bare_creatable] obtain w1 where
    m: "mkdir True True [''ml'', ''data''] (start bare_fs Map.empty) = (Inr (), w1)" and
    d: "\<forall>q \<in> set (prefixes [''ml'', ''data'']). is_dir w1 q" and
    fr: "\<forall>q. q \<notin> set (prefixes [''ml'', ''data'']) \<or> q = []
           \<longrightarrow> fs w1 q = fs (start bare_fs Map.empty) q"
    by blast
  have "\<forall>p \<in> set ENV_PATHS. \<not> path_exists w1 p"
    using fr by (simp add: ENV_PATHS_def path_exists_def lookup_def start_def bare_fs_def)
  moreover have "is_dir w1 [''ml'', ''data'']" using d by simp
  ultimately show thesis using m by (rule that [rotated])
qed

lemma demo_stage:
  obtains w1 w2 where
    "mkdir True True (out_dir demo_args) (start demo_fs Map.empty) = (Inr (), w1)"
    "make_engine_from_env w1 = (Inr (db_uri w2), w2)"
    "fs w2 = (\<lambda>q. if q \<in> set (prefixes (out_dir demo_args)) \<and> q \<noteq> [] then Some Dir
                   else demo_fs q)"
    "quiet w2"
proof -
  have e: "[''backend'', ''.env''] \<in> set ENV_PATHS" by (simp add: ENV_PATHS_def)
  from demo_creatable e demo_env show thesis by (rule main_stages) (rule that)
qed

lemma valid_demo_now: "valid_datetime (utcnow demo_ext)"
  by (simp add: valid_datetime_def demo_ext_def calendar_defs)

lemma far_creatable: "creatable (start demo_fs Map.empty) (out_dir far_args)"
  by (simp add: creatable_def far_args_def demo_fs_def start_def lookup_def is_dir_def parent_def)

lemma ml_data_stage:
  assumes "out_dir a = [''ml'', ''data'']"
  obtains w1 w2 where
    "mkdir True True (out_dir a) (start demo_fs Map.empty) = (Inr (), w1)"
    "make_engine_from_env w1 = (Inr (db_uri w2), w2)"
    "is_dir w2 (out_dir a)"
    "\<forall>c. \<not> is_dir w2 (out_dir a @ [c])"
    "\<forall>c. write_error w2 (out_dir a @ [c]) = None"
proof -
  have e: "[''backend'', ''.env''] \<in> set ENV_PATHS" by (simp add: ENV_PATHS_def)
  have c: "creatable (start demo_fs Map.empty) (out_dir a)"
    by (simp add: assms creatable_def demo_fs_def start_def lookup_def is_dir_def parent_def)
  from c e demo_env obtain w1 w2 where
    m: "mkdir True True (out_dir a) (start demo_fs Map.empty) = (Inr (), w1)" and
    g: "make_engine_from_env w1 = (Inr (db_uri w2), w2)" and
    f2: "fs w2 = (\<lambda>q. if q \<in> set (prefixes (out_dir a)) \<and> q \<noteq> [] then Some Dir
                   else demo_fs q)" and
    q: "quiet w2"
    by (rule main_stages)
  have d: "is_dir w2 (out_dir a)" by (simp add: is_dir_def lookup_def f2 assms)
  have n: "\<not> is_dir w2 (out_dir a @ [c])" for c
    by (simp add: is_dir_def lookup_def f2 assms demo_fs_def)
  have "write_error w2 (out_dir a @ [c]) = None" for c
    unfolding write_error_child [OF d] using n by simp
  with n have "\<forall>c. \<not> is_dir w2 (out_dir a @ [c])"
    "\<forall>c. write_error w2 (out_dir a @ [c]) = None" by simp_all
  with m g d show thesis by (rule that)
qed















subsection \<open>The search for the environment file\<close>


subsection \<open>The statements sent to the database\<close>



subsection \<open>The rows behind the filter\<close>


subsection \<open>A parquet step that fails\<close>

text \<open>
  C3: the parquet step is the one place with a handler. In a run whose output directory
  could be made, whose environment file was found, whose filter could be built, whose six
  statements return and whose CSV files can be opened, \<open>main\<close> returns whatever the
  parquet step does. Every CSV file asked for is written; and for each table whose
  parquet step raises \<open>e\<close> (the engine is missing or fails, or the file cannot be
  opened), a warning naming the table and \<open>e\<close> is printed, the list of files printed for
  the table holds its CSV file at most, and no parquet file is written for it. The last
  part is the single call: \<open>export_table\<close> returns the rowset, with the events in this
  order.
\<close>

theorem parquet_failure_is_caught:
  assumes "mkdir True True (out_dir a) (start f env) = (Inr (), w1)"
    and "make_engine_from_env w1 = (Inr engine, w2)"
    and "make_time_filter x (since_days a) = Inr tf"
    and "valid_args a"
    and "\<forall>(sql, b) \<in> set (exports (since_days a) tf).
           (\<exists>df. read_sql x engine sql = Inr df)
           \<and> (''csv'' \<in> set (formats a) \<longrightarrow> \<not> is_dir w2 (out_dir a @ [b @ ''.csv'']))"
  shows "fst (main x a (start f env)) = Inr ()
       \<and> (\<forall>(sql, b) \<in> set (exports (since_days a) tf).
            (''csv'' \<in> set (formats a) \<longrightarrow>
               out_dir a @ [b @ ''.csv''] \<in> set (writes (snd (main x a (start f env)))))
            \<and> (\<forall>e. ''parquet'' \<in> set (formats a)
                  \<and> parquet_failure x w2 (rowset x engine sql) (out_dir a @ [b @ ''.parquet''])
                    = Some e \<longrightarrow>
                  ParquetWarning b e \<in> set (prints (snd (main x a (start f env))))
                  \<and> Exported (length (df_rows (rowset x engine sql)))
                      (csv_files (out_dir a) b (formats a))
                    \<in> set (prints (snd (main x a (start f env))))
                  \<and> out_dir a @ [b @ ''.parquet'']
                    \<notin> set (writes (snd (main x a (start f env))))))
       \<and> (read_sql x engine sql0 = Inr df0 \<and> ''parquet'' \<in> set fmts0
            \<and> (''csv'' \<in> set fmts0 \<longrightarrow> write_error w0 (out0 @ [b0 @ ''.csv'']) = None)
            \<and> parquet_failure x w0 df0 (out0 @ [b0 @ ''.parquet'']) = Some e0 \<longrightarrow>
          export_table x engine sql0 out0 b0 fmts0 w0 =
            (Inr df0,
             w0\<lparr>fs := (if ''csv'' \<in> set fmts0
                        then (fs w0)(out0 @ [b0 @ ''.csv''] \<mapsto> File (CsvData df0)) else fs w0),
                trace := trace w0 @ [Print (Exporting b0), ReadSql engine sql0]
                  @ map WriteFile (csv_files out0 b0 fmts0)
                  @ [Print (ParquetWarning b0 e0),
                     Print (Exported (length (df_rows df0)) (csv_files out0 b0 fmts0))]\<rparr>))"
proof (intro conjI)
  show ok: "fst (main x a (start f env)) = Inr ()" using assms by (rule main_returns)
  note ws = main_success(1) [OF assms(1-4) ok]
  note ps = main_success(2) [OF assms(1-4) ok]
  show "\<forall>(sql, b) \<in> set (exports (since_days a) tf).
            (''csv'' \<in> set (formats a) \<longrightarrow>
               out_dir a @ [b @ ''.csv''] \<in> set (writes (snd (main x a (start f env)))))
            \<and> (\<forall>e. ''parquet'' \<in> set (formats a)
                  \<and> parquet_failure x w2 (rowset x engine sql) (out_dir a @ [b @ ''.parquet''])
                    = Some e \<longrightarrow>
                  ParquetWarning b e \<in> set (prints (snd (main x a (start f env))))
                  \<and> Exported (length (df_rows (rowset x engine sql)))
                      (csv_files (out_dir a) b (formats a))
                    \<in> set (prints (snd (main x a (start f env))))
                  \<and> out_dir a @ [b @ ''.parquet'']
                    \<notin> set (writes (snd (main x a (start f env)))))"
  proof (rule ballI)
    fix y assume y: "y \<in> set (exports (since_days a) tf)"
    obtain sql b where yb: "y = (sql, b)" by (cases y)
    have mem: "(sql, b) \<in> set (exports (since_days a) tf)" using y yb by simp
    have 1: "''csv'' \<in> set (formats a) \<longrightarrow>
               out_dir a @ [b @ ''.csv''] \<in> set (writes (snd (main x a (start f env))))"
      using mem unfolding ws by (force simp: csv_files_def)
    have 2: "ParquetWarning b e \<in> set (prints (snd (main x a (start f env))))
          \<and> Exported (length (df_rows (rowset x engine sql)))
                      (csv_files (out_dir a) b (formats a))
                    \<in> set (prints (snd (main x a (start f env))))
          \<and> out_dir a @ [b @ ''.parquet''] \<notin> set (writes (snd (main x a (start f env))))"
      if pq: "''parquet'' \<in> set (formats a)"
        and fl: "parquet_failure x w2 (rowset x engine sql) (out_dir a @ [b @ ''.parquet''])
                   = Some e" for e
    proof (intro conjI)
      have pw: "parquet_warnings x w2 (rowset x engine sql) (out_dir a) b (formats a)
                 = [ParquetWarning b e]"
        using pq fl by (simp add: parquet_warnings_def)
      have pf: "parquet_files x w2 (rowset x engine sql) (out_dir a) b (formats a) = []"
        using fl by (simp add: parquet_files_def)
      show "ParquetWarning b e \<in> set (prints (snd (main x a (start f env))))"
        unfolding ps using mem pw by force
      show "Exported (length (df_rows (rowset x engine sql)))
                      (csv_files (out_dir a) b (formats a))
                    \<in> set (prints (snd (main x a (start f env))))"
        unfolding ps using mem pf by force
      show "out_dir a @ [b @ ''.parquet''] \<notin> set (writes (snd (main x a (start f env))))"
      proof
        assume "out_dir a @ [b @ ''.parquet''] \<in> set (writes (snd (main x a (start f env))))"
        then obtain sql' b' where
          m': "(sql', b') \<in> set (exports (since_days a) tf)" and
          i: "out_dir a @ [b @ ''.parquet''] \<in> set (csv_files (out_dir a) b' (formats a))
              \<or> out_dir a @ [b @ ''.parquet'']
                \<in> set (parquet_files x w2 (rowset x engine sql') (out_dir a) b' (formats a))"
          unfolding ws by auto
        from i have b': "b' = b" and
          nf: "parquet_failure x w2 (rowset x engine sql') (out_dir a @ [b @ ''.parquet'']) = None"
          by (auto simp: in_csv_files in_parquet_files)
        from distinct_snd [OF exports_distinct mem m' [unfolded b']] have "sql' = sql" .
        with nf fl show False by simp
      qed
    qed
    from 1 2 show "case y of (sql, b) \<Rightarrow>
            (''csv'' \<in> set (formats a) \<longrightarrow>
               out_dir a @ [b @ ''.csv''] \<in> set (writes (snd (main x a (start f env)))))
            \<and> (\<forall>e. ''parquet'' \<in> set (formats a)
                  \<and> parquet_failure x w2 (rowset x engine sql) (out_dir a @ [b @ ''.parquet''])
                    = Some e \<longrightarrow>
                  ParquetWarning b e \<in> set (prints (snd (main x a (start f env))))
                  \<and> Exported (length (df_rows (rowset x engine sql)))
                      (csv_files (out_dir a) b (formats a))
                    \<in> set (prints (snd (main x a (start f env))))
                  \<and> out_dir a @ [b @ ''.parquet'']
                    \<notin> set (writes (snd (main x a (start f env)))))"
      by (simp add: yb)
  qed
  show "read_sql x engine sql0 = Inr df0 \<and> ''parquet'' \<in> set fmts0
            \<and> (''csv'' \<in> set fmts0 \<longrightarrow> write_error w0 (out0 @ [b0 @ ''.csv'']) = None)
            \<and> parquet_failure x w0 df0 (out0 @ [b0 @ ''.parquet'']) = Some e0 \<longrightarrow>
          export_table x engine sql0 out0 b0 fmts0 w0 =
            (Inr df0,
             w0\<lparr>fs := (if ''csv'' \<in> set fmts0
                        then (fs w0)(out0 @ [b0 @ ''.csv''] \<mapsto> File (CsvData df0)) else fs w0),
                trace := trace w0 @ [Print (Exporting b0), ReadSql engine sql0]
                  @ map WriteFile (csv_files out0 b0 fmts0)
                  @ [Print (ParquetWarning b0 e0),
                     Print (Exported (length (df_rows df0)) (csv_files out0 b0 fmts0))]\<rparr>)"
  proof
    assume h: "read_sql x engine sql0 = Inr df0 \<and> ''parquet'' \<in> set fmts0
            \<and> (''csv'' \<in> set fmts0 \<longrightarrow> write_error w0 (out0 @ [b0 @ ''.csv'']) = None)
            \<and> parquet_failure x w0 df0 (out0 @ [b0 @ ''.parquet'']) = Some e0"
    then have r: "read_sql x engine sql0 = Inr df0"
      and c: "''csv'' \<in> set fmts0 \<Longrightarrow> write_error w0 (out0 @ [b0 @ ''.csv'']) = None"
      by simp_all
    from export_table_returns [OF r c] h
    show "export_table x engine sql0 out0 b0 fmts0 w0 =
            (Inr df0,
             w0\<lparr>fs := (if ''csv'' \<in> set fmts0
                        then (fs w0)(out0 @ [b0 @ ''.csv''] \<mapsto> File (CsvData df0)) else fs w0),
                trace := trace w0 @ [Print (Exporting b0), ReadSql engine sql0]
                  @ map WriteFile (csv_files out0 b0 fmts0)
                  @ [Print (ParquetWarning b0 e0),
                     Print (Exported (length (df_rows df0)) (csv_files out0 b0 fmts0))]\<rparr>)"
      by (simp add: export_fs_def export_events_def parquet_files_def parquet_warnings_def)
  qed
qed

theorem parquet_failure_is_caught_witness:
  "''parquet'' \<in> set (formats both_args)
   \<and> fst (main no_pyarrow_ext both_args (start demo_fs Map.empty)) = Inr ()
   \<and> [''ml'', ''data'', ''click_logs.csv'']
       \<in> set (writes (snd (main no_pyarrow_ext both_args (start demo_fs Map.empty))))
   \<and> ParquetWarning ''click_logs'' (SerializationError ''Unable to find a usable engine'')
       \<in> set (prints (snd (main no_pyarrow_ext both_args (start demo_fs Map.empty))))
   \<and> Exported 0 [[''ml'', ''data'', ''click_logs.csv'']]
       \<in> set (prints (snd (main no_pyarrow_ext both_args (start demo_fs Map.empty))))
   \<and> [''ml'', ''data'', ''click_logs.parquet'']
       \<notin> set (writes (snd (main no_pyarrow_ext both_args (start demo_fs Map.empty))))"
proof -
  have o: "out_dir both_args = [''ml'', ''data'']" by (simp add: both_args_def)
  from o obtain w1 w2 where
    m: "mkdir True True (out_dir both_args) (start demo_fs Map.empty) = (Inr (), w1)" and
    g: "make_engine_from_env w1 = (Inr (db_uri w2), w2)" and
    d: "is_dir w2 (out_dir both_args)" and
    n: "\<forall>c. \<not> is_dir w2 (out_dir both_args @ [c])" and
    we: "\<forall>c. write_error w2 (out_dir both_args @ [c]) = None"
    by (rule ml_data_stage)
  have t: "make_time_filter no_pyarrow_ext (since_days both_args) = Inr []"
    by (simp add: make_time_filter_def both_args_def)
  have v: "valid_args both_args" by (simp add: valid_args_def both_args_def)
  have h: "\<forall>(sql, b) \<in> set (exports (since_days both_args) []).
           (\<exists>df. read_sql no_pyarrow_ext (db_uri w2) sql = Inr df)
           \<and> (''csv'' \<in> set (formats both_args)
                \<longrightarrow> \<not> is_dir w2 (out_dir both_args @ [b @ ''.csv'']))"
    using n by (auto simp: no_pyarrow_ext_def)
  let ?sql = "''SELECT id, user_id, course_id, event, created_at FROM click_logs''"
  have mem: "(?sql, ''click_logs'') \<in> set (exports (since_days both_args) [])"
    by (simp add: exports_def log_sql_def both_args_def)
  have r: "rowset no_pyarrow_ext (db_uri w2) ?sql = demo_empty"
    by (simp add: rowset_def no_pyarrow_ext_def)
  have fl: "parquet_failure no_pyarrow_ext w2 demo_empty
              (out_dir both_args @ [''click_logs'' @ ''.parquet''])
            = Some (SerializationError ''Unable to find a usable engine'')"
    by (simp add: parquet_failure_def no_pyarrow_ext_def)
  have f: "''parquet'' \<in> set (formats both_args)" "''csv'' \<in> set (formats both_args)"
    by (simp_all add: both_args_def)
  note caught = parquet_failure_is_caught [OF m g t v h]
  from caught have ok: "fst (main no_pyarrow_ext both_args (start demo_fs Map.empty)) = Inr ()"
    by (rule conjunct1)
  from caught [THEN conjunct2, THEN conjunct1, rule_format, OF mem] r fl f
  have "out_dir both_args @ [''click_logs'' @ ''.csv'']
          \<in> set (writes (snd (main no_pyarrow_ext both_args (start demo_fs Map.empty))))
      \<and> ParquetWarning ''click_logs'' (SerializationError ''Unable to find a usable engine'')
          \<in> set (prints (snd (main no_pyarrow_ext both_args (start demo_fs Map.empty))))
      \<and> Exported (length (df_rows demo_empty))
            (csv_files (out_dir both_args) ''click_logs'' (formats both_args))
          \<in> set (prints (snd (main no_pyarrow_ext both_args (start demo_fs Map.empty))))
      \<and> out_dir both_args @ [''click_logs'' @ ''.parquet'']
          \<notin> set (writes (snd (main no_pyarrow_ext both_args (start demo_fs Map.empty))))"
    by simp
  then show ?thesis using ok f
    by (simp add: o demo_empty_def csv_files_def)
qed

subsection \<open>No environment file\<close>



subsection \<open>Errors of the database\<close>

text \<open>
  C5: an exception of \<open>pd.read_sql\<close> (the connection or the statement failed) is caught
  nowhere. \<open>export_table\<close> raises it at once, having printed its first line only; and
  in a run of \<open>main\<close>, a statement in the trace that failed is the last effect of the
  run, it was sent once (no retry), and its exception is what \<open>main\<close> ends with.
\<close>

theorem query_errors_end_the_run:
  "(read_sql x engine sql = Inl e \<longrightarrow>
      export_table x engine sql out b fmts w =
        (Inl e, w\<lparr>trace := trace w @ [Print (Exporting b), ReadSql engine sql]\<rparr>))
   \<and> (ReadSql engine' sql' \<in> set (trace (snd (main x a (start f env))))
        \<and> read_sql x engine' sql' = Inl e' \<longrightarrow>
      fst (main x a (start f env)) = Inl e'
      \<and> last (trace (snd (main x a (start f env)))) = ReadSql engine' sql'
      \<and> count_list (trace (snd (main x a (start f env)))) (ReadSql engine' sql') = 1)"
proof (rule conjI; rule impI)
  assume "read_sql x engine sql = Inl e"
  then show "export_table x engine sql out b fmts w =
        (Inl e, w\<lparr>trace := trace w @ [Print (Exporting b), ReadSql engine sql]\<rparr>)"
    by (rule export_table_raises)
next
  assume h: "ReadSql engine' sql' \<in> set (trace (snd (main x a (start f env))))
        \<and> read_sql x engine' sql' = Inl e'"
  show "fst (main x a (start f env)) = Inl e'
      \<and> last (trace (snd (main x a (start f env)))) = ReadSql engine' sql'
      \<and> count_list (trace (snd (main x a (start f env)))) (ReadSql engine' sql') = 1"
  proof (cases rule: main_cases [of x a f env])
    case (stopped e0 w')
    from quiet_no_query [OF stopped(2)] h stopped(1) show ?thesis by simp
  next
    case (exporting w1 engine w2 tf)
    let ?o = "exports_outcome x engine (out_dir a) (map lower (formats a)) w2
                (exports (since_days a) tf)"
    note m = main_exports [OF exporting(1-3)]
    have n2: "ReadSql engine' sql' \<notin> set (trace w2)" using exporting(4) by (rule quiet_no_query)
    have "ReadSql engine' sql' \<in> set (snd ?o)"
      using h m n2 by (cases "fst ?o") auto
    from outcome_failed_query [OF this] h have
      o: "fst ?o = Some e'" "last (snd ?o) = ReadSql engine' sql'"
         "count_list (snd ?o) (ReadSql engine' sql') = 1" and ne: "snd ?o \<noteq> []"
      using \<open>ReadSql engine' sql' \<in> set (snd ?o)\<close> by auto
    have c2: "count_list (trace w2) (ReadSql engine' sql') = 0"
      using n2 by (simp add: count_list_0_iff)
    show ?thesis using m o ne c2 by simp
  qed
qed

theorem query_errors_end_the_run_witness:
  "fst (main refusing_ext demo_args (start demo_fs Map.empty)) =
     Inl (DatabaseError ''connection refused'')
   \<and> queries (snd (main refusing_ext demo_args (start demo_fs Map.empty)))
     = [''SELECT id, email, role, created_at FROM users'']"
proof -
  obtain w1 w2 where
    m: "mkdir True True (out_dir demo_args) (start demo_fs Map.empty) = (Inr (), w1)" and
    g: "make_engine_from_env w1 = (Inr (db_uri w2), w2)" and
    f2: "fs w2 = (\<lambda>q. if q \<in> set (prefixes (out_dir demo_args)) \<and> q \<noteq> [] then Some Dir
                   else demo_fs q)" and
    q: "quiet w2"
    by (rule demo_stage)
  have t: "make_time_filter refusing_ext (since_days demo_args)
             = Inr (spec_where (Some ''2026-10-04 12:00:00''))"
    using demo_cutoff demo_strftime
    by (simp add: demo_args_def make_time_filter_Some demo_ext_def refusing_ext_def)
  let ?users = "''SELECT id, email, role, created_at FROM users''"
  have r: "read_sql refusing_ext (db_uri w2) ?users = Inl (DatabaseError ''connection refused'')"
    by (simp add: refusing_ext_def)
  have o: "exports_outcome refusing_ext (db_uri w2) (out_dir demo_args)
             (map lower (formats demo_args)) w2
             (exports (since_days demo_args) (spec_where (Some ''2026-10-04 12:00:00'')))
           = (Some (DatabaseError ''connection refused''),
              [Print (Exporting ''users''), ReadSql (db_uri w2) ?users])"
    by (simp add: exports_def refusing_ext_def)
  note me = main_exports [OF m g t, unfolded o]
  have tr: "trace (snd (main refusing_ext demo_args (start demo_fs Map.empty)))
      = trace w2 @ [Print (Exporting ''users''), ReadSql (db_uri w2) ?users]"
    using me by simp
  then have "ReadSql (db_uri w2) ?users
      \<in> set (trace (snd (main refusing_ext demo_args (start demo_fs Map.empty))))" by simp
  with query_errors_end_the_run [of refusing_ext _ _ _ _ _ _ _ "db_uri w2" ?users
      demo_args demo_fs Map.empty "DatabaseError ''connection refused''"] r
  have "fst (main refusing_ext demo_args (start demo_fs Map.empty)) =
     Inl (DatabaseError ''connection refused'')" by blast
  moreover have "queries (snd (main refusing_ext demo_args (start demo_fs Map.empty))) = [?users]"
    using tr q by (simp add: queries_def quiet_def)
  ultimately show ?thesis by simp
qed

subsection \<open>The files of a run\<close>

text \<open>
  C7, as the code has it: a run that returns has written, for the six base names in the
  order \<open>users\<close>, \<open>user_profiles\<close>, \<open>search_logs\<close>, \<open>click_logs\<close>,
  \<open>completed_courses\<close>, \<open>in_progress\<close>, the file \<open><base>.csv\<close> of the output directory
  when \<open>csv\<close> is asked for, then the file \<open><base>.parquet\<close> when \<open>parquet\<close> is asked for
  and the parquet step of that table did not raise; and it has written no other file.
\<close>

theorem files_of_a_run_that_returns:
  assumes "mkdir True True (out_dir a) (start f env) = (Inr (), w1)"
    and "make_engine_from_env w1 = (Inr engine, w2)"
    and "make_time_filter x (since_days a) = Inr tf"
    and "valid_args a"
    and "fst (main x a (start f env)) = Inr ()"
  shows "writes (snd (main x a (start f env))) =
           concat (map (\<lambda>(sql, b).
               (if ''csv'' \<in> set (formats a) then [out_dir a @ [b @ ''.csv'']] else [])
               @ (if ''parquet'' \<in> set (formats a)
                     \<and> parquet_failure x w2 (rowset x engine sql) (out_dir a @ [b @ ''.parquet''])
                       = None
                  then [out_dir a @ [b @ ''.parquet'']] else []))
             (exports (since_days a) tf))
       \<and> map snd (exports (since_days a) tf) =
           [''users'', ''user_profiles'', ''search_logs'', ''click_logs'', ''completed_courses'',
            ''in_progress'']"
  using main_success(1) [OF assms] exports_bases [of "since_days a" tf]
  by (simp add: csv_files_def parquet_files_def)

theorem files_of_a_run_that_returns_witness:
  "valid_args both_args
   \<and> fst (main demo_ext both_args (start demo_fs Map.empty)) = Inr ()
   \<and> writes (snd (main demo_ext both_args (start demo_fs Map.empty))) =
       [[''ml'', ''data'', ''users.csv''], [''ml'', ''data'', ''users.parquet''],
        [''ml'', ''data'', ''user_profiles.csv''], [''ml'', ''data'', ''user_profiles.parquet''],
        [''ml'', ''data'', ''search_logs.csv''], [''ml'', ''data'', ''search_logs.parquet''],
        [''ml'', ''data'', ''click_logs.csv''], [''ml'', ''data'', ''click_logs.parquet''],
        [''ml'', ''data'', ''completed_courses.csv''],
        [''ml'', ''data'', ''completed_courses.parquet''],
        [''ml'', ''data'', ''in_progress.csv''], [''ml'', ''data'', ''in_progress.parquet'']]"
proof -
  have o: "out_dir both_args = [''ml'', ''data'']" by (simp add: both_args_def)
  from o obtain w1 w2 where
    m: "mkdir True True (out_dir both_args) (start demo_fs Map.empty) = (Inr (), w1)" and
    g: "make_engine_from_env w1 = (Inr (db_uri w2), w2)" and
    d: "is_dir w2 (out_dir both_args)" and
    n: "\<forall>c. \<not> is_dir w2 (out_dir both_args @ [c])" and
    we: "\<forall>c. write_error w2 (out_dir both_args @ [c]) = None"
    by (rule ml_data_stage)
  have t: "make_time_filter demo_ext (since_days both_args) = Inr []"
    by (simp add: make_time_filter_def both_args_def)
  have v: "valid_args both_args" by (simp add: valid_args_def both_args_def)
  have h: "\<forall>(sql, b) \<in> set (exports (since_days both_args) []).
           (\<exists>df. read_sql demo_ext (db_uri w2) sql = Inr df)
           \<and> (''csv'' \<in> set (formats both_args)
                \<longrightarrow> \<not> is_dir w2 (out_dir both_args @ [b @ ''.csv'']))"
    using n by (auto simp: demo_ext_def)
  have ok: "fst (main demo_ext both_args (start demo_fs Map.empty)) = Inr ()"
    using m g t v h by (rule main_returns)
  have pf: "parquet_failure demo_ext w2 df (out_dir both_args @ [c]) = None" for df c
    using we by (simp add: parquet_failure_def demo_ext_def)
  from files_of_a_run_that_returns [OF m g t v ok, THEN conjunct1]
  have "writes (snd (main demo_ext both_args (start demo_fs Map.empty))) =
       [[''ml'', ''data'', ''users.csv''], [''ml'', ''data'', ''users.parquet''],
        [''ml'', ''data'', ''user_profiles.csv''], [''ml'', ''data'', ''user_profiles.parquet''],
        [''ml'', ''data'', ''search_logs.csv''], [''ml'', ''data'', ''search_logs.parquet''],
        [''ml'', ''data'', ''click_logs.csv''], [''ml'', ''data'', ''click_logs.parquet''],
        [''ml'', ''data'', ''completed_courses.csv''],
        [''ml'', ''data'', ''completed_courses.parquet''],
        [''ml'', ''data'', ''in_progress.csv''], [''ml'', ''data'', ''in_progress.parquet'']]"
    by (simp add: pf exports_def) (simp add: both_args_def)
  with v ok show ?thesis by simp
qed

text \<open>
  Without a parquet engine, a run asked for parquet only returns and has written nothing:
  a run that returns does not always hold one file for each format asked for.
\<close>

theorem parquet_only_without_engine:
  "formats parquet_only_args = [''parquet'']
   \<and> fst (main no_pyarrow_ext parquet_only_args (start demo_fs Map.empty)) = Inr ()
   \<and> writes (snd (main no_pyarrow_ext parquet_only_args (start demo_fs Map.empty))) = []"
proof -
  have o: "out_dir parquet_only_args = [''ml'', ''data'']" by (simp add: parquet_only_args_def)
  from o obtain w1 w2 where
    m: "mkdir True True (out_dir parquet_only_args) (start demo_fs Map.empty) = (Inr (), w1)" and
    g: "make_engine_from_env w1 = (Inr (db_uri w2), w2)" and
    d: "is_dir w2 (out_dir parquet_only_args)" and
    n: "\<forall>c. \<not> is_dir w2 (out_dir parquet_only_args @ [c])" and
    we: "\<forall>c. write_error w2 (out_dir parquet_only_args @ [c]) = None"
    by (rule ml_data_stage)
  have t: "make_time_filter no_pyarrow_ext (since_days parquet_only_args) = Inr []"
    by (simp add: make_time_filter_def parquet_only_args_def)
  have v: "valid_args parquet_only_args" by (simp add: valid_args_def parquet_only_args_def)
  have h: "\<forall>(sql, b) \<in> set (exports (since_days parquet_only_args) []).
           (\<exists>df. read_sql no_pyarrow_ext (db_uri w2) sql = Inr df)
           \<and> (''csv'' \<in> set (formats parquet_only_args)
                \<longrightarrow> \<not> is_dir w2 (out_dir parquet_only_args @ [b @ ''.csv'']))"
    using n by (auto simp: no_pyarrow_ext_def)
  have ok: "fst (main no_pyarrow_ext parquet_only_args (start demo_fs Map.empty)) = Inr ()"
    using m g t v h by (rule main_returns)
  have pf: "parquet_files no_pyarrow_ext w2 df (out_dir parquet_only_args) b
              (formats parquet_only_args) = []" for df b
    by (simp add: parquet_files_def parquet_failure_def no_pyarrow_ext_def)
  have cf: "csv_files (out_dir parquet_only_args) b (formats parquet_only_args) = []" for b
    by (simp add: csv_files_def parquet_only_args_def)
  have "writes (snd (main no_pyarrow_ext parquet_only_args (start demo_fs Map.empty))) = []"
    unfolding main_success(1) [OF m g t v ok] by (simp add: pf cf split_def)
  with ok show ?thesis by (simp add: parquet_only_args_def)
qed

subsection \<open>The output directory and the files of an earlier run\<close>




subsection \<open>The output directory is made first\<close>

text \<open>
  C9: \<open>main\<close> makes the output directory before it looks for the environment file. On
  the run that ends with the \<open>RuntimeError\<close> of the missing \<open>.env\<close> the output
  directory is on disk all the same; where it was missing before, the file system the
  failed run leaves is not the one it found.
\<close>

theorem output_directory_outlives_failure:
  assumes "mkdir True True (out_dir a) (start f env) = (Inr (), w1)"
    and "\<forall>p \<in> set ENV_PATHS. \<not> path_exists w1 p"
  shows "fst (main x a (start f env)) =
           Inl (RuntimeError
             ''Could not find backend/.env. Place .env in backend/.env or project root.'')
       \<and> is_dir (snd (main x a (start f env))) (out_dir a)
       \<and> (f (out_dir a) = None \<and> out_dir a \<noteq> [] \<longrightarrow>
            fs (snd (main x a (start f env))) (out_dir a) = Some Dir
            \<and> fs (snd (main x a (start f env))) \<noteq> f)"
proof -
  have m: "main x a (start f env) =
      (Inl (RuntimeError
         ''Could not find backend/.env. Place .env in backend/.env or project root.''), w1)"
    using main_no_engine [OF assms(1) make_engine_from_env_none [OF assms(2)]] .
  have d: "is_dir w1 (out_dir a)" using assms(1) by (rule mkdir_is_dir)
  have "f (out_dir a) = None \<and> out_dir a \<noteq> [] \<longrightarrow>
          fs w1 (out_dir a) = Some Dir \<and> fs w1 \<noteq> f"
    using d by (auto simp: is_dir_def lookup_def)
  with m d show ?thesis by simp
qed

theorem output_directory_outlives_failure_witness:
  "bare_fs (out_dir demo_args) = None
   \<and> fst (main demo_ext demo_args (start bare_fs Map.empty)) =
       Inl (RuntimeError
         ''Could not find backend/.env. Place .env in backend/.env or project root.'')
   \<and> fs (snd (main demo_ext demo_args (start bare_fs Map.empty))) (out_dir demo_args) = Some Dir"
proof -
  obtain w1 where
    m: "mkdir True True (out_dir demo_args) (start bare_fs Map.empty) = (Inr (), w1)" and
    n: "\<forall>p \<in> set ENV_PATHS. \<not> path_exists w1 p"
    using bare_stage by (auto simp: demo_args_def)
  have b: "bare_fs (out_dir demo_args) = None" "out_dir demo_args \<noteq> []"
    by (simp_all add: bare_fs_def demo_args_def)
  from output_directory_outlives_failure [OF m n, of demo_ext] b show ?thesis by simp
qed

subsection \<open>Since-days of zero and below\<close>

text \<open>
  C10, as the code has it: the filter is left out only when since-days is \<open>None\<close>. For an
  integer \<open>D\<close>, zero and negatives included, for which the clock's time moved back by
  \<open>D\<close> days is a date of the years 1 to 9999, the filter is built with that cutoff: the
  clock's time itself for \<open>D = 0\<close>, a time after it for \<open>D < 0\<close>, a time before it for
  \<open>0 < D\<close>. For any other \<open>D\<close> the subtraction raises \<open>OverflowError\<close> and no filter is
  built.
\<close>

theorem since_days_zero_and_negative:
  assumes "valid_datetime (utcnow x)"
  shows "make_time_filter x None = Inr []
       \<and> map fst (exports None tf) = spec_sql_texts None
       \<and> (if 0 < int (dt_ordinal (utcnow x)) - D \<and> int (dt_ordinal (utcnow x)) - D \<le> int MAXORDINAL
          then \<exists>cutoff.
                 cutoff_of (utcnow x) D = Inr cutoff
                 \<and> valid_datetime cutoff
                 \<and> make_time_filter x (Some D) =
                     Inr ('' WHERE created_at >= '' @ [quote] @ strftime cutoff @ [quote] @ '' '')
                 \<and> map fst (exports (Some D) (spec_where (Some (strftime cutoff))))
                     = spec_sql_texts (Some (strftime cutoff))
                 \<and> (D = 0 \<longrightarrow> cutoff = utcnow x)
                 \<and> (D < 0 \<longrightarrow> dt_less (utcnow x) cutoff)
                 \<and> (0 < D \<longrightarrow> dt_less cutoff (utcnow x))
          else make_time_filter x (Some D) = Inl OverflowError)"
proof (intro conjI)
  show "make_time_filter x None = Inr []" by (simp add: make_time_filter_def)
  show "map fst (exports None tf) = spec_sql_texts None" by (rule exports_sql_None)
  let ?n = "int (dt_ordinal (utcnow x)) - D"
  let ?c = "(utcnow x)\<lparr>dt_ordinal := nat ?n\<rparr>"
  from assms have v: "1 \<le> dt_ordinal (utcnow x)" "dt_ordinal (utcnow x) \<le> 3652059"
    "dt_hour (utcnow x) < 24" "dt_minute (utcnow x) < 60" "dt_second (utcnow x) < 60"
    "dt_microsecond (utcnow x) < 1000000"
    by (simp_all add: valid_datetime_def MAXORDINAL_def)
  show "if 0 < ?n \<and> ?n \<le> int MAXORDINAL
          then \<exists>cutoff.
                 cutoff_of (utcnow x) D = Inr cutoff
                 \<and> valid_datetime cutoff
                 \<and> make_time_filter x (Some D) =
                     Inr ('' WHERE created_at >= '' @ [quote] @ strftime cutoff @ [quote] @ '' '')
                 \<and> map fst (exports (Some D) (spec_where (Some (strftime cutoff))))
                     = spec_sql_texts (Some (strftime cutoff))
                 \<and> (D = 0 \<longrightarrow> cutoff = utcnow x)
                 \<and> (D < 0 \<longrightarrow> dt_less (utcnow x) cutoff)
                 \<and> (0 < D \<longrightarrow> dt_less cutoff (utcnow x))
          else make_time_filter x (Some D) = Inl OverflowError"
  proof (cases "0 < ?n \<and> ?n \<le> int MAXORDINAL")
    case True
    then have D: "\<bar>D\<bar> \<le> 999999999" using v unfolding MAXORDINAL_def by linarith
    have c: "cutoff_of (utcnow x) D = Inr ?c"
      using True D by (simp add: cutoff_of_def timedelta_days_def datetime_sub_def)
    have "1 \<le> nat ?n \<and> nat ?n \<le> 3652059"
      using True unfolding MAXORDINAL_def by linarith
    then have vc: "valid_datetime ?c"
      using v by (simp add: valid_datetime_def MAXORDINAL_def)
    have f: "make_time_filter x (Some D) =
        Inr ('' WHERE created_at >= '' @ [quote] @ strftime ?c @ [quote] @ '' '')"
      by (simp add: make_time_filter_def c)
    have z: "D = 0 \<longrightarrow> ?c = utcnow x" by simp
    have neg: "D < 0 \<longrightarrow> dt_less (utcnow x) ?c"
    proof
      assume "D < 0"
      then have "dt_ordinal (utcnow x) < nat ?n" by linarith
      then show "dt_less (utcnow x) ?c" by (simp add: dt_less_def dt_key_def)
    qed
    have pos: "0 < D \<longrightarrow> dt_less ?c (utcnow x)"
    proof
      assume "0 < D"
      then have "nat ?n < dt_ordinal (utcnow x)" using True by linarith
      then show "dt_less ?c (utcnow x)" by (simp add: dt_less_def dt_key_def)
    qed
    from True c vc f z neg pos exports_sql_Some [of D "strftime ?c"] show ?thesis by auto
  next
    case False
    then have "make_time_filter x (Some D) = Inl OverflowError"
      by (auto simp: make_time_filter_def cutoff_of_def timedelta_days_def datetime_sub_def)
    with False show ?thesis by simp
  qed
qed

theorem since_days_zero_and_negative_witness:
  "valid_datetime (utcnow demo_ext)
   \<and> cutoff_of (utcnow demo_ext) (- 1) = Inr (mk_datetime 2026 11 4 12 0 0 0)
   \<and> dt_less (utcnow demo_ext) (mk_datetime 2026 11 4 12 0 0 0)
   \<and> make_time_filter demo_ext (Some (- 1)) =
       Inr ('' WHERE created_at >= '' @ [quote] @ ''2026-11-04 12:00:00'' @ [quote] @ '' '')"
proof -
  have c: "cutoff_of (utcnow demo_ext) (- 1) = Inr (mk_datetime 2026 11 4 12 0 0 0)"
    by (simp add: cutoff_of_def timedelta_days_def datetime_sub_def demo_ext_def calendar_defs
        Let_def)
  have s: "strftime (mk_datetime 2026 11 4 12 0 0 0) = ''2026-11-04 12:00:00''"
    by (simp add: strftime_def calendar_defs Let_def digits4_def digits2_def digit_def)
  have r: "0 < int (dt_ordinal (utcnow demo_ext)) - (- 1)
           \<and> int (dt_ordinal (utcnow demo_ext)) - (- 1) \<le> int MAXORDINAL"
    by (simp add: demo_ext_def calendar_defs)
  from since_days_zero_and_negative [OF valid_demo_now, of _ "- 1"] r
  obtain cutoff where
    "cutoff_of (utcnow demo_ext) (- 1) = Inr cutoff"
    "make_time_filter demo_ext (Some (- 1)) =
       Inr ('' WHERE created_at >= '' @ [quote] @ strftime cutoff @ [quote] @ '' '')"
    "dt_less (utcnow demo_ext) cutoff"
    by auto
  with c s valid_demo_now show ?thesis by simp
qed

text \<open>
  Minus 1000000000 days is more than \<open>timedelta\<close> holds: the run ends with
  \<open>OverflowError\<close> before its first statement, and no filter has been applied.
\<close>

theorem since_days_out_of_range:
  "since_days far_args = Some (- 1000000000)
   \<and> fst (main demo_ext far_args (start demo_fs Map.empty)) = Inl OverflowError
   \<and> queries (snd (main demo_ext far_args (start demo_fs Map.empty))) = []"
proof -
  have e: "[''backend'', ''.env''] \<in> set ENV_PATHS" by (simp add: ENV_PATHS_def)
  from far_creatable e demo_env obtain w1 w2 where
    m: "mkdir True True (out_dir far_args) (start demo_fs Map.empty) = (Inr (), w1)" and
    g: "make_engine_from_env w1 = (Inr (db_uri w2), w2)" and
    f2: "fs w2 = (\<lambda>q. if q \<in> set (prefixes (out_dir far_args)) \<and> q \<noteq> [] then Some Dir
                   else demo_fs q)" and
    q: "quiet w2"
    by (rule main_stages)
  have t: "make_time_filter demo_ext (since_days far_args) = Inl OverflowError"
    by (simp add: far_args_def make_time_filter_def cutoff_of_def timedelta_days_def)
  from main_no_filter [OF m g t] q show ?thesis
    by (simp add: quiet_def) (simp add: far_args_def)
qed

end
